theory Spec2Isabelle
  imports Main "HOL-Library.Word"
begin

section \<open>Values exchanged with the transport\<close>

text \<open>
  \<^verbatim>\<open>size_t\<close> is a 64-bit unsigned integer: \<open>+\<close> and \<open>-\<close> wrap around, as
  \<^verbatim>\<open>length += len\<close> and \<^verbatim>\<open>buf_.size() - length\<close> do in the source. A pointer is
  the 64-bit address it holds.
\<close>

type_synonym size_t = "64 word"

text \<open>
  \<^verbatim>\<open>folly::AsyncSocketException\<close>: its type, message and errno. The only type the
  adapter names is \<^verbatim>\<open>TIMED_OUT\<close>; the others come from the transport and are
  numbered.
\<close>

datatype AsyncSocketExceptionType = TIMED_OUT | OTHER_TYPE nat

datatype AsyncSocketException =
  AsyncSocketException AsyncSocketExceptionType string int

text \<open>
  What a \<^verbatim>\<open>folly::exception_wrapper\<close> holds in this file: a socket exception
  recorded by a callback, or the \<^verbatim>\<open>OperationCancelled\<close> that
  \<^verbatim>\<open>co_yield co_cancelled\<close> produces.
\<close>

datatype exception = SocketError AsyncSocketException | OperationCancelled

text \<open>
  How a \<^verbatim>\<open>Task<T>\<close> ends: \<^verbatim>\<open>co_return v\<close>, \<^verbatim>\<open>co_yield co_error(e)\<close>, or never,
  when the baton it awaits is never posted. \<open>NullDereference\<close> is the one place where
  the source dereferences a null pointer (\<^verbatim>\<open>ioBufQueue.front()\<close> of an empty queue).
\<close>

datatype 'a task = Returns 'a | Throws exception | Suspended | NullDereference

text \<open>\<^verbatim>\<open>folly::MutableByteRange\<close> and \<^verbatim>\<open>folly::ByteRange\<close>: a start address and a size.\<close>

record ByteRange =
  r_begin :: size_t
  r_size :: size_t

text \<open>
  \<^verbatim>\<open>folly::IOBufQueue\<close>, as far as the read callback uses it: the number of bytes
  committed to the chain, which \<^verbatim>\<open>postallocate(n)\<close> advances by \<open>n\<close>. What
  \<^verbatim>\<open>preallocate\<close> returns is the queue's own policy and is a parameter of
  \<open>getReadBuffer\<close> below.
\<close>

record IOBufQueue =
  chainLength :: size_t

definition postallocate :: "IOBufQueue \<Rightarrow> size_t \<Rightarrow> IOBufQueue" where
  "postallocate q n = q\<lparr>chainLength := chainLength q + n\<rparr>"

section \<open>The transport\<close>

text \<open>
  Every call the adapter and its callbacks make on \<^verbatim>\<open>folly::AsyncSocket\<close> and on the
  event base's timer, in the order made. \<^verbatim>\<open>setReadCB(&cb)\<close> is \<open>SetReadCB True\<close>,
  \<^verbatim>\<open>setReadCB(nullptr)\<close> is \<open>SetReadCB False\<close>. \<^verbatim>\<open>connect\<close> takes an \<^verbatim>\<open>int\<close>
  timeout and \<^verbatim>\<open>setSendTimeout\<close> a \<^verbatim>\<open>uint32_t\<close>, so the 64-bit millisecond count
  is narrowed to 32 bits at the call.
\<close>

datatype transport_call =
    SetReadCB bool
  | ScheduleTimeout int
  | CancelTimeout
  | Connect string "32 word"
  | CancelConnect
  | SetSendTimeout "32 word"
  | Write size_t size_t
  | Writev "ByteRange list"
  | CloseWithReset

text \<open>
  Modelled from the spec: the state of \<^verbatim>\<open>folly::AsyncSocket\<close> and of the timer, whose
  sources are not among the files verified here. The spec gives the transport a
  single-notification-per-registration contract and says that a callback which has
  unregistered itself can be reached by no further event. So the transport is four
  registrations: the read callback pointer, the armed read timer, the connect callback
  of a connect in flight and the write callback of a write in flight. \<open>calls\<close> logs
  every call made.
\<close>

record AsyncSocket =
  readCallback :: bool
  timerScheduled :: bool
  connectCallback :: bool
  writeCallback :: bool
  calls :: "transport_call list"

definition called :: "transport_call \<Rightarrow> AsyncSocket \<Rightarrow> AsyncSocket" where
  "called c a = a\<lparr>calls := calls a @ [c]\<rparr>"

section \<open>CallbackBase\<close>

text \<open>
  \<^verbatim>\<open>error_\<close> is \<open>error_cb\<close> (\<open>None\<close>: the empty wrapper). The baton is the number of
  times \<^verbatim>\<open>post()\<close> was called on it: it is signalled when that is not 0. \<open>cancels\<close>
  counts the calls of the virtual \<^verbatim>\<open>cancel()\<close>.
\<close>

record CallbackBase =
  error_cb :: "exception option"
  posts :: nat
  cancels :: nat

text \<open>
  One operation in flight: its callback, the transport the callback's \<^verbatim>\<open>socket_\<close>
  points to (the same object as the \<^verbatim>\<open>socket_\<close> of the \<^verbatim>\<open>Socket\<close>), and whether
  cancellation has been requested on the caller's cancellation token.
\<close>

record 'c op_state =
  cb :: 'c
  transport :: AsyncSocket
  token :: bool

definition on_transport :: "(AsyncSocket \<Rightarrow> AsyncSocket) \<Rightarrow> 'c op_state \<Rightarrow> 'c op_state" where
  "on_transport f st = st\<lparr>transport := f (transport st)\<rparr>"

definition post :: "'a CallbackBase_scheme op_state \<Rightarrow> 'a CallbackBase_scheme op_state" where
  "post st = st\<lparr>cb := (cb st)\<lparr>posts := Suc (posts (cb st))\<rparr>\<rparr>"

definition setReadCB :: "bool \<Rightarrow> 'c op_state \<Rightarrow> 'c op_state" where
  "setReadCB b = on_transport (\<lambda>a. called (SetReadCB b) (a\<lparr>readCallback := b\<rparr>))"

definition scheduleTimeout :: "int \<Rightarrow> 'c op_state \<Rightarrow> 'c op_state" where
  "scheduleTimeout t = on_transport (\<lambda>a. called (ScheduleTimeout t) (a\<lparr>timerScheduled := True\<rparr>))"

definition cancelTimeout :: "'c op_state \<Rightarrow> 'c op_state" where
  "cancelTimeout = on_transport (\<lambda>a. called CancelTimeout (a\<lparr>timerScheduled := False\<rparr>))"

text \<open>
  The events of the reactor during one operation: a callback of the transport or of
  the timer, or a cancellation request on the token. The
  \<^verbatim>\<open>CancellationCallback\<close> that \<open>wait\<close> subscribes runs once, when cancellation is
  first requested, and posts.
\<close>

datatype 'e event = Transport 'e | RequestCancellation

definition requestCancellation ::
  "'a CallbackBase_scheme op_state \<Rightarrow> 'a CallbackBase_scheme op_state" where
  "requestCancellation st = (if token st then st else post (st\<lparr>token := True\<rparr>))"

fun step :: "('e \<Rightarrow> 'a CallbackBase_scheme op_state \<Rightarrow> 'a CallbackBase_scheme op_state) \<Rightarrow>
    'e event \<Rightarrow> 'a CallbackBase_scheme op_state \<Rightarrow> 'a CallbackBase_scheme op_state" where
  "step deliver (Transport e) st = deliver e st"
| "step deliver RequestCancellation st = requestCancellation st"

fun run :: "('e \<Rightarrow> 'a CallbackBase_scheme op_state \<Rightarrow> 'a CallbackBase_scheme op_state) \<Rightarrow>
    'e event list \<Rightarrow> 'a CallbackBase_scheme op_state \<Rightarrow> 'a CallbackBase_scheme op_state" where
  "run deliver [] st = st"
| "run deliver (ev # evs) st = run deliver evs (step deliver ev st)"

text \<open>
  \<^verbatim>\<open>CallbackBase::wait(cancelToken)\<close>. \<open>cancel\<close> is the virtual \<^verbatim>\<open>cancel()\<close> of the
  variant and \<open>deliver\<close> hands a transport event to the variant's callback. \<open>evs\<close> are
  the events that occur from the subscription of the cancellation callback until the
  coroutine runs again; it runs again only if the baton was posted.
\<close>

definition wait ::
  "('a CallbackBase_scheme op_state \<Rightarrow> 'a CallbackBase_scheme op_state) \<Rightarrow>
   ('e \<Rightarrow> 'a CallbackBase_scheme op_state \<Rightarrow> 'a CallbackBase_scheme op_state) \<Rightarrow>
   'e event list \<Rightarrow> 'a CallbackBase_scheme op_state \<Rightarrow>
   unit task \<times> 'a CallbackBase_scheme op_state" where
  "wait cancel deliver evs st =
     (if token st then (Throws OperationCancelled, cancel st)
      else let st' = run deliver evs st in
        if posts (cb st') = 0 then (Suspended, st')
        else if token st' then (Throws OperationCancelled, cancel st')
        else (Returns (), st'))"

section \<open>ReadCallback\<close>

text \<open>
  \<^verbatim>\<open>buf_\<close> is \<open>buf\<close>, \<^verbatim>\<open>readBuf_\<close> is \<open>readBuf\<close> (\<open>None\<close>: the null pointer) and
  \<^verbatim>\<open>length\<close> is \<open>length_cb\<close>. The first constructor leaves \<^verbatim>\<open>readBuf_\<close> null and the
  second leaves \<^verbatim>\<open>buf_\<close> the empty range, as the member initialisers say.
\<close>

record ReadCallback = CallbackBase +
  length_cb :: size_t
  eof :: bool
  buf :: ByteRange
  readBuf :: "IOBufQueue option"
  minReadSize :: size_t
  newAllocationSize :: size_t

definition ReadCallback_buf ::
  "AsyncSocket \<Rightarrow> bool \<Rightarrow> ByteRange \<Rightarrow> int \<Rightarrow> ReadCallback op_state" where
  "ReadCallback_buf socket tok b timeout =
     (let st = \<lparr>cb = \<lparr>error_cb = None, posts = 0, cancels = 0, length_cb = 0, eof = False,
                     buf = b, readBuf = None, minReadSize = 0, newAllocationSize = 0\<rparr>,
                transport = socket, token = tok\<rparr>
      in if timeout > 0 then scheduleTimeout timeout st else st)"

definition ReadCallback_queue ::
  "AsyncSocket \<Rightarrow> bool \<Rightarrow> IOBufQueue \<Rightarrow> size_t \<Rightarrow> size_t \<Rightarrow> int \<Rightarrow> ReadCallback op_state" where
  "ReadCallback_queue socket tok q minRead newAlloc timeout =
     (let st = \<lparr>cb = \<lparr>error_cb = None, posts = 0, cancels = 0, length_cb = 0, eof = False,
                     buf = \<lparr>r_begin = 0, r_size = 0\<rparr>, readBuf = Some q,
                     minReadSize = minRead, newAllocationSize = newAlloc\<rparr>,
                transport = socket, token = tok\<rparr>
      in if timeout > 0 then scheduleTimeout timeout st else st)"

definition ReadCallback_cancel :: "ReadCallback op_state \<Rightarrow> ReadCallback op_state" where
  "ReadCallback_cancel st =
     cancelTimeout (setReadCB False (st\<lparr>cb := (cb st)\<lparr>cancels := Suc (cancels (cb st))\<rparr>\<rparr>))"

text \<open>
  \<open>getReadBuffer\<close> returns the pair \<^verbatim>\<open>(*buf, *len)\<close>. \<open>preallocate\<close> is
  \<^verbatim>\<open>IOBufQueue::preallocate\<close>, which is not among the sources.
\<close>

definition getReadBuffer ::
  "(IOBufQueue \<Rightarrow> size_t \<Rightarrow> size_t \<Rightarrow> size_t \<times> size_t) \<Rightarrow> ReadCallback \<Rightarrow> size_t \<times> size_t" where
  "getReadBuffer preallocate c =
     (case readBuf c of
        Some q \<Rightarrow> preallocate q (minReadSize c) (newAllocationSize c)
      | None \<Rightarrow> (r_begin (buf c) + length_cb c, r_size (buf c) - length_cb c))"

definition readDataAvailable :: "size_t \<Rightarrow> ReadCallback op_state \<Rightarrow> ReadCallback op_state" where
  "readDataAvailable len st =
     (let st1 = st\<lparr>cb := (cb st)\<lparr>length_cb := length_cb (cb st) + len\<rparr>\<rparr>;
          st2 = (case readBuf (cb st1) of
                   Some q \<Rightarrow> st1\<lparr>cb := (cb st1)\<lparr>readBuf := Some (postallocate q len)\<rparr>\<rparr>
                 | None \<Rightarrow>
                     if length_cb (cb st1) = r_size (buf (cb st1))
                     then cancelTimeout (setReadCB False st1)
                     else st1)
      in post st2)"

definition readEOF :: "ReadCallback op_state \<Rightarrow> ReadCallback op_state" where
  "readEOF st =
     (let st1 = cancelTimeout (setReadCB False st)
      in post (st1\<lparr>cb := (cb st1)\<lparr>eof := True\<rparr>\<rparr>))"

definition readErr :: "AsyncSocketException \<Rightarrow> ReadCallback op_state \<Rightarrow> ReadCallback op_state" where
  "readErr ex st =
     (let st1 = cancelTimeout (setReadCB False st)
      in post (st1\<lparr>cb := (cb st1)\<lparr>error_cb := Some (SocketError ex)\<rparr>\<rparr>))"

text \<open>\<open>errno\<close> is the value of the global \<^verbatim>\<open>errno\<close> when the timer callback runs.\<close>

definition timeoutExpired :: "int \<Rightarrow> ReadCallback op_state \<Rightarrow> ReadCallback op_state" where
  "timeoutExpired errno st =
     (let st1 = setReadCB False st
      in if length_cb (cb st1) = 0
         then post (st1\<lparr>cb := (cb st1)\<lparr>error_cb :=
                 Some (SocketError (AsyncSocketException TIMED_OUT
                   ''Timed out waiting for data'' errno))\<rparr>\<rparr>)
         else st1)"

datatype read_event =
    ReadDataAvailable size_t
  | ReadEOF
  | ReadErr AsyncSocketException
  | TimeoutExpired int

text \<open>
  Modelled from the spec: which events the transport and the timer deliver; the
  dispatching code of \<^verbatim>\<open>AsyncSocket\<close> and \<^verbatim>\<open>HHWheelTimer\<close> is not among the sources.
  A read event reaches the callback only while it is the registered read callback, and
  the timer fires only while it is scheduled; firing unschedules it.
\<close>

fun read_delivered :: "read_event \<Rightarrow> ReadCallback op_state \<Rightarrow> bool" where
  "read_delivered (TimeoutExpired errno) st = timerScheduled (transport st)"
| "read_delivered ev st = readCallback (transport st)"

fun read_handle :: "read_event \<Rightarrow> ReadCallback op_state \<Rightarrow> ReadCallback op_state" where
  "read_handle (ReadDataAvailable len) st = readDataAvailable len st"
| "read_handle ReadEOF st = readEOF st"
| "read_handle (ReadErr ex) st = readErr ex st"
| "read_handle (TimeoutExpired errno) st =
     timeoutExpired errno (on_transport (\<lambda>a. a\<lparr>timerScheduled := False\<rparr>) st)"

definition read_deliver :: "read_event \<Rightarrow> ReadCallback op_state \<Rightarrow> ReadCallback op_state" where
  "read_deliver ev st = (if read_delivered ev st then read_handle ev st else st)"

section \<open>Socket::read\<close>

text \<open>
  The \<^verbatim>\<open>Socket\<close>: the transport its \<^verbatim>\<open>socket_\<close> points to and \<^verbatim>\<open>deferredReadEOF_\<close>.
\<close>

record Socket =
  asyncSocket :: AsyncSocket
  deferredReadEOF :: bool

text \<open>
  Modelled from the spec: the callback is destroyed when the call ends, and nothing
  of the transport may refer to it afterwards. The read callback is a timer callback
  too, and the destructor of a timer callback (in \<^verbatim>\<open>HHWheelTimer\<close>, not among the
  sources) takes it off the timer. The task that stays suspended keeps its callback.
\<close>

definition ReadCallback_destroy :: "ReadCallback op_state \<Rightarrow> ReadCallback op_state" where
  "ReadCallback_destroy = on_transport (\<lambda>a. a\<lparr>timerScheduled := False\<rparr>)"

text \<open>
  Both overloads of \<^verbatim>\<open>Socket::read\<close> continue with the same statements once the
  callback is constructed (lines 292 to 304 and 319 to 330): \<open>read_await\<close> registers
  the callback and waits, and \<open>read_finish\<close> is what follows the \<^verbatim>\<open>co_await\<close>. The
  result is what the task does, the socket afterwards and the callback as the call
  left it.
\<close>

definition read_finish ::
  "Socket \<Rightarrow> unit task \<times> ReadCallback op_state \<Rightarrow> size_t task \<times> Socket \<times> ReadCallback option" where
  "read_finish s w =
     (case w of (waitRet, st2) \<Rightarrow>
        (case waitRet of
           Throws e \<Rightarrow>
             (Throws e, s\<lparr>asyncSocket := transport (ReadCallback_destroy st2)\<rparr>, Some (cb st2))
         | Suspended \<Rightarrow> (Suspended, s\<lparr>asyncSocket := transport st2\<rparr>, Some (cb st2))
         | NullDereference \<Rightarrow> (NullDereference, s\<lparr>asyncSocket := transport st2\<rparr>, Some (cb st2))
         | Returns u \<Rightarrow>
             (case error_cb (cb st2) of
                Some e \<Rightarrow>
                  (Throws e, s\<lparr>asyncSocket := transport (ReadCallback_destroy st2)\<rparr>,
                   Some (cb st2))
              | None \<Rightarrow>
                  let st3 = setReadCB False st2
                  in (Returns (length_cb (cb st3)),
                      s\<lparr>asyncSocket := transport (ReadCallback_destroy st3),
                        deferredReadEOF := (eof (cb st3) \<and> length_cb (cb st3) > 0)\<rparr>,
                      Some (cb st3)))))"

definition read_await ::
  "Socket \<Rightarrow> ReadCallback op_state \<Rightarrow> read_event event list \<Rightarrow>
   size_t task \<times> Socket \<times> ReadCallback option" where
  "read_await s st0 evs =
     read_finish s (wait ReadCallback_cancel read_deliver evs (setReadCB True st0))"

text \<open>
  \<open>tok\<close> says whether cancellation was already requested on the current cancellation
  token when the call is made.
\<close>

definition Socket_read ::
  "Socket \<Rightarrow> bool \<Rightarrow> ByteRange \<Rightarrow> int \<Rightarrow> read_event event list \<Rightarrow>
   size_t task \<times> Socket \<times> ReadCallback option" where
  "Socket_read s tok b timeout evs =
     (if deferredReadEOF s then (Returns 0, s\<lparr>deferredReadEOF := False\<rparr>, None)
      else read_await s (ReadCallback_buf (asyncSocket s) tok b timeout) evs)"

definition Socket_read_queue ::
  "Socket \<Rightarrow> bool \<Rightarrow> IOBufQueue \<Rightarrow> size_t \<Rightarrow> size_t \<Rightarrow> int \<Rightarrow> read_event event list \<Rightarrow>
   size_t task \<times> Socket \<times> ReadCallback option" where
  "Socket_read_queue s tok q minRead newAlloc timeout evs =
     (if deferredReadEOF s then (Returns 0, s\<lparr>deferredReadEOF := False\<rparr>, None)
      else read_await s (ReadCallback_queue (asyncSocket s) tok q minRead newAlloc timeout) evs)"

section \<open>ConnectCallback and Socket::connect\<close>

type_synonym ConnectCallback = CallbackBase

definition ConnectCallback_cancel :: "ConnectCallback op_state \<Rightarrow> ConnectCallback op_state" where
  "ConnectCallback_cancel st =
     on_transport (\<lambda>a. called CancelConnect (a\<lparr>connectCallback := False\<rparr>))
       (st\<lparr>cb := (cb st)\<lparr>cancels := Suc (cancels (cb st))\<rparr>\<rparr>)"

definition connectSuccess :: "ConnectCallback op_state \<Rightarrow> ConnectCallback op_state" where
  "connectSuccess st = post st"

definition connectErr ::
  "AsyncSocketException \<Rightarrow> ConnectCallback op_state \<Rightarrow> ConnectCallback op_state" where
  "connectErr ex st = post (st\<lparr>cb := (cb st)\<lparr>error_cb := Some (SocketError ex)\<rparr>\<rparr>)"

datatype connect_event = ConnectSuccess | ConnectErr AsyncSocketException

text \<open>
  Modelled from the spec: the transport notifies the connect callback once per
  \<^verbatim>\<open>connect\<close>, while the connect is in flight.
\<close>

fun connect_handle :: "connect_event \<Rightarrow> ConnectCallback op_state \<Rightarrow> ConnectCallback op_state" where
  "connect_handle ConnectSuccess st = connectSuccess st"
| "connect_handle (ConnectErr ex) st = connectErr ex st"

definition connect_deliver ::
  "connect_event \<Rightarrow> ConnectCallback op_state \<Rightarrow> ConnectCallback op_state" where
  "connect_deliver ev st =
     (if connectCallback (transport st)
      then connect_handle ev (on_transport (\<lambda>a. a\<lparr>connectCallback := False\<rparr>) st)
      else st)"

text \<open>\<^verbatim>\<open>AsyncSocket::newSocket(evb)\<close>: nothing registered, nothing called yet.\<close>

definition newSocket :: "size_t \<Rightarrow> AsyncSocket" where
  "newSocket evb = \<lparr>readCallback = False, timerScheduled = False, connectCallback = False,
                    writeCallback = False, calls = []\<rparr>"

text \<open>
  The result is what the task does (the \<^verbatim>\<open>Socket\<close> it returns starts with
  \<^verbatim>\<open>deferredReadEOF_\<close> false), the transport afterwards and the callback as the call
  left it.
\<close>

definition connect_finish ::
  "unit task \<times> ConnectCallback op_state \<Rightarrow> Socket task \<times> AsyncSocket \<times> ConnectCallback" where
  "connect_finish w =
     (case w of (waitRet, st3) \<Rightarrow>
        (case waitRet of
           Throws e \<Rightarrow> (Throws e, transport st3, cb st3)
         | Suspended \<Rightarrow> (Suspended, transport st3, cb st3)
         | NullDereference \<Rightarrow> (NullDereference, transport st3, cb st3)
         | Returns u \<Rightarrow>
             (case error_cb (cb st3) of
                Some e \<Rightarrow> (Throws e, transport st3, cb st3)
              | None \<Rightarrow>
                  (Returns \<lparr>asyncSocket = transport st3, deferredReadEOF = False\<rparr>,
                   transport st3, cb st3))))"

definition Socket_connect ::
  "size_t \<Rightarrow> bool \<Rightarrow> string \<Rightarrow> int \<Rightarrow> connect_event event list \<Rightarrow>
   Socket task \<times> AsyncSocket \<times> ConnectCallback" where
  "Socket_connect evb tok destAddr connectTimeout evs =
     (let st0 = \<lparr>cb = \<lparr>error_cb = None, posts = 0, cancels = 0\<rparr>,
                 transport = newSocket evb, token = tok\<rparr>;
          st1 = setReadCB False st0;
          st2 = on_transport (\<lambda>a. called (Connect destAddr (word_of_int connectTimeout))
                  (a\<lparr>connectCallback := True\<rparr>)) st1
      in connect_finish (wait ConnectCallback_cancel connect_deliver evs st2))"

section \<open>WriteCallback and Socket::write\<close>

text \<open>\<^verbatim>\<open>WriteCallback::error\<close> is \<open>error_w\<close> (\<open>None\<close>: the empty optional).\<close>

record WriteCallback = CallbackBase +
  bytesWritten :: size_t
  error_w :: "AsyncSocketException option"

text \<open>\<^verbatim>\<open>Socket::WriteInfo\<close>; its \<^verbatim>\<open>bytesWritten\<close> is \<open>wi_bytesWritten\<close>.\<close>

record WriteInfo =
  wi_bytesWritten :: size_t

definition writeSuccess :: "WriteCallback op_state \<Rightarrow> WriteCallback op_state" where
  "writeSuccess st = post st"

definition writeErr ::
  "size_t \<Rightarrow> AsyncSocketException \<Rightarrow> WriteCallback op_state \<Rightarrow> WriteCallback op_state" where
  "writeErr bytes ex st = post (st\<lparr>cb := (cb st)\<lparr>bytesWritten := bytes, error_w := Some ex\<rparr>\<rparr>)"

datatype write_event = WriteSuccess | WriteErr size_t AsyncSocketException

text \<open>
  Modelled from the spec: the transport notifies the write callback once per write,
  while the write is in flight.
\<close>

fun write_handle :: "write_event \<Rightarrow> WriteCallback op_state \<Rightarrow> WriteCallback op_state" where
  "write_handle WriteSuccess st = writeSuccess st"
| "write_handle (WriteErr bytes ex) st = writeErr bytes ex st"

definition write_deliver :: "write_event \<Rightarrow> WriteCallback op_state \<Rightarrow> WriteCallback op_state" where
  "write_deliver ev st =
     (if writeCallback (transport st)
      then write_handle ev (on_transport (\<lambda>a. a\<lparr>writeCallback := False\<rparr>) st)
      else st)"

text \<open>
  \<^verbatim>\<open>cancel()\<close> is \<^verbatim>\<open>socket_->closeWithReset()\<close>. What the closing transport reports to
  a write still in flight is not in the sources: \<open>rst\<close> is the notification it makes
  from inside \<^verbatim>\<open>closeWithReset\<close>, if any.
\<close>

definition WriteCallback_cancel ::
  "write_event option \<Rightarrow> WriteCallback op_state \<Rightarrow> WriteCallback op_state" where
  "WriteCallback_cancel rst st =
     (let st1 = on_transport (called CloseWithReset)
                  (st\<lparr>cb := (cb st)\<lparr>cancels := Suc (cancels (cb st))\<rparr>\<rparr>);
          st2 = (case rst of None \<Rightarrow> st1 | Some ev \<Rightarrow> write_deliver ev st1)
      in on_transport (\<lambda>a. a\<lparr>writeCallback := False\<rparr>) st2)"

definition populate :: "WriteInfo option \<Rightarrow> WriteCallback \<Rightarrow> WriteInfo option" where
  "populate writeInfo c =
     (case writeInfo of
        None \<Rightarrow> None
      | Some wi \<Rightarrow> Some (wi\<lparr>wi_bytesWritten := bytesWritten c\<rparr>))"

text \<open>
  Both overloads of \<^verbatim>\<open>Socket::write\<close> continue with the same statements once the
  write is issued (lines 340 to 355 and 366 to 381): \<open>write_await\<close> waits and
  \<open>write_finish\<close> is what follows the \<^verbatim>\<open>co_await\<close>. \<open>inl\<close> are the notifications the
  transport makes from inside \<^verbatim>\<open>write\<close> or \<^verbatim>\<open>writev\<close>, before \<open>wait\<close> looks at the
  token. The result is what the task does, the socket afterwards, the caller's
  \<^verbatim>\<open>WriteInfo\<close> (\<open>None\<close>: the null pointer) and the callback as the call left it.
\<close>

definition write_finish ::
  "Socket \<Rightarrow> WriteInfo option \<Rightarrow> unit task \<times> WriteCallback op_state \<Rightarrow>
   unit task \<times> Socket \<times> WriteInfo option \<times> WriteCallback" where
  "write_finish s writeInfo w =
     (case w of (waitRet, st2) \<Rightarrow>
        (let s' = s\<lparr>asyncSocket := transport st2\<rparr>
         in case waitRet of
              Throws e \<Rightarrow> (Throws e, s', populate writeInfo (cb st2), cb st2)
            | Suspended \<Rightarrow> (Suspended, s', writeInfo, cb st2)
            | NullDereference \<Rightarrow> (NullDereference, s', writeInfo, cb st2)
            | Returns u \<Rightarrow>
                (case error_w (cb st2) of
                   Some ex \<Rightarrow> (Throws (SocketError ex), s', populate writeInfo (cb st2), cb st2)
                 | None \<Rightarrow> (Returns (), s', writeInfo, cb st2))))"

definition write_await ::
  "Socket \<Rightarrow> WriteCallback op_state \<Rightarrow> WriteInfo option \<Rightarrow> write_event list \<Rightarrow>
   write_event event list \<Rightarrow> write_event option \<Rightarrow>
   unit task \<times> Socket \<times> WriteInfo option \<times> WriteCallback" where
  "write_await s st0 writeInfo inl evs rst =
     write_finish s writeInfo
       (wait (WriteCallback_cancel rst) write_deliver evs
          (run write_deliver (map Transport inl) st0))"

definition WriteCallback_new :: "AsyncSocket \<Rightarrow> bool \<Rightarrow> WriteCallback op_state" where
  "WriteCallback_new socket tok =
     \<lparr>cb = \<lparr>error_cb = None, posts = 0, cancels = 0, bytesWritten = 0, error_w = None\<rparr>,
      transport = socket, token = tok\<rparr>"

definition Socket_write ::
  "Socket \<Rightarrow> bool \<Rightarrow> ByteRange \<Rightarrow> int \<Rightarrow> WriteInfo option \<Rightarrow> write_event list \<Rightarrow>
   write_event event list \<Rightarrow> write_event option \<Rightarrow>
   unit task \<times> Socket \<times> WriteInfo option \<times> WriteCallback" where
  "Socket_write s tok b timeout writeInfo inl evs rst =
     (let a1 = called (SetSendTimeout (word_of_int timeout)) (asyncSocket s);
          st0 = WriteCallback_new a1 tok;
          st1 = on_transport (\<lambda>a. called (Write (r_begin b) (r_size b))
                  (a\<lparr>writeCallback := True\<rparr>)) st0
      in write_await s st1 writeInfo inl evs rst)"

text \<open>
  \<open>front\<close> is what \<^verbatim>\<open>ioBufQueue.front()\<close> gives: \<open>None\<close> for the null pointer of an
  empty queue, else the \<^verbatim>\<open>iovec\<close> array of the chain.
\<close>

definition Socket_write_queue ::
  "Socket \<Rightarrow> bool \<Rightarrow> ByteRange list option \<Rightarrow> int \<Rightarrow> WriteInfo option \<Rightarrow> write_event list \<Rightarrow>
   write_event event list \<Rightarrow> write_event option \<Rightarrow>
   unit task \<times> Socket \<times> WriteInfo option \<times> WriteCallback" where
  "Socket_write_queue s tok front timeout writeInfo inl evs rst =
     (let a1 = called (SetSendTimeout (word_of_int timeout)) (asyncSocket s);
          st0 = WriteCallback_new a1 tok
      in case front of
           None \<Rightarrow> (NullDereference, s\<lparr>asyncSocket := a1\<rparr>, writeInfo, cb st0)
         | Some iovec \<Rightarrow>
             let st1 = on_transport (\<lambda>a. called (Writev iovec) (a\<lparr>writeCallback := True\<rparr>)) st0
             in write_await s st1 writeInfo inl evs rst)"

section \<open>Event sequences\<close>

text \<open>
  \<open>all_delivered evs st\<close>: every transport event of \<open>evs\<close>, taken in order from the
  state \<open>st\<close>, reaches the callback.
\<close>

fun all_delivered :: "read_event event list \<Rightarrow> ReadCallback op_state \<Rightarrow> bool" where
  "all_delivered [] st = True"
| "all_delivered (Transport e # evs) st =
     (read_delivered e st \<and> all_delivered evs (read_deliver e st))"
| "all_delivered (RequestCancellation # evs) st = all_delivered evs (requestCancellation st)"

text \<open>
  \<open>within_offer preallocate evs st\<close>: no data event of \<open>evs\<close> that reaches the callback
  brings more bytes than the buffer which \<open>getReadBuffer\<close> has just offered. The
  transport reads into that buffer, so it cannot report more.
\<close>

fun within_offer ::
  "(IOBufQueue \<Rightarrow> size_t \<Rightarrow> size_t \<Rightarrow> size_t \<times> size_t) \<Rightarrow> read_event event list \<Rightarrow>
   ReadCallback op_state \<Rightarrow> bool" where
  "within_offer preallocate [] st = True"
| "within_offer preallocate (Transport (ReadDataAvailable len) # evs) st =
     ((read_delivered (ReadDataAvailable len) st \<longrightarrow>
         len \<le> snd (getReadBuffer preallocate (cb st))) \<and>
      within_offer preallocate evs (read_deliver (ReadDataAvailable len) st))"
| "within_offer preallocate (ev # evs) st = within_offer preallocate evs (step read_deliver ev st)"

text \<open>
  Two invariants of a read in flight. \<open>read_inv\<close>: the timer is armed only while the
  callback is registered, a registered callback has recorded no error, and a callback
  that has counted bytes has been posted. \<open>fits b\<close>: a fixed-buffer callback on the
  buffer \<open>b\<close> has counted no more bytes than \<open>b\<close> holds.
\<close>

definition read_inv :: "ReadCallback op_state \<Rightarrow> bool" where
  "read_inv st \<longleftrightarrow>
     (timerScheduled (transport st) \<longrightarrow> readCallback (transport st)) \<and>
     (readCallback (transport st) \<longrightarrow> error_cb (cb st) = None) \<and>
     (length_cb (cb st) \<noteq> 0 \<longrightarrow> 0 < posts (cb st))"

definition fits :: "ByteRange \<Rightarrow> ReadCallback op_state \<Rightarrow> bool" where
  "fits b st \<longleftrightarrow> readBuf (cb st) = None \<and> buf (cb st) = b \<and> length_cb (cb st) \<le> r_size b"

text \<open>The exception that \<open>timeoutExpired\<close> records.\<close>

abbreviation timed_out :: "int \<Rightarrow> exception" where
  "timed_out errno \<equiv>
     SocketError (AsyncSocketException TIMED_OUT ''Timed out waiting for data'' errno)"

text \<open>
  Values for the examples: a freshly connected socket, a 10-byte and a 100-byte
  buffer, and an error of the transport.
\<close>

abbreviation (input) sock0 :: Socket where
  "sock0 \<equiv> \<lparr>asyncSocket = newSocket 0, deferredReadEOF = False\<rparr>"

abbreviation (input) buf10 :: ByteRange where
  "buf10 \<equiv> \<lparr>r_begin = 4096, r_size = 10\<rparr>"

abbreviation (input) buf100 :: ByteRange where
  "buf100 \<equiv> \<lparr>r_begin = 8192, r_size = 100\<rparr>"

abbreviation (input) reset_by_peer :: AsyncSocketException where
  "reset_by_peer \<equiv> AsyncSocketException (OTHER_TYPE 9) ''Connection reset by peer'' 104"

section \<open>Unfolding\<close>

lemmas prim_defs = on_transport_def called_def post_def setReadCB_def scheduleTimeout_def
  cancelTimeout_def

lemmas read_cb_defs = readDataAvailable_def readEOF_def readErr_def timeoutExpired_def
  ReadCallback_cancel_def ReadCallback_destroy_def read_deliver_def

lemmas read_ctor_defs = ReadCallback_buf_def ReadCallback_queue_def

lemmas connect_defs = ConnectCallback_cancel_def connectSuccess_def connectErr_def connect_deliver_def

lemmas write_defs = WriteCallback_cancel_def writeSuccess_def writeErr_def write_deliver_def
  WriteCallback_new_def populate_def

lemmas eval_defs = Socket_read_def Socket_read_queue_def read_await_def read_finish_def wait_def
  Socket_connect_def connect_finish_def Socket_write_def Socket_write_queue_def write_await_def
  write_finish_def newSocket_def getReadBuffer_def postallocate_def requestCancellation_def
  prim_defs read_cb_defs read_ctor_defs connect_defs write_defs

lemma read_deliver_simps:
  "read_deliver (ReadDataAvailable len) st =
     (if readCallback (transport st) then readDataAvailable len st else st)"
  "read_deliver ReadEOF st = (if readCallback (transport st) then readEOF st else st)"
  "read_deliver (ReadErr ex) st = (if readCallback (transport st) then readErr ex st else st)"
  "read_deliver (TimeoutExpired errno) st =
     (if timerScheduled (transport st)
      then timeoutExpired errno (on_transport (\<lambda>a. a\<lparr>timerScheduled := False\<rparr>) st) else st)"
  by (simp_all add: read_deliver_def)

section \<open>Token, baton and cancel count along a run of events\<close>

lemma token_requestCancellation [simp]: "token (requestCancellation st)"
  by (simp add: requestCancellation_def post_def)

lemma posts_requestCancellation:
  "posts (cb (requestCancellation st)) = (if token st then posts (cb st) else Suc (posts (cb st)))"
  by (simp add: requestCancellation_def post_def)

lemma cancels_requestCancellation [simp]:
  "cancels (cb (requestCancellation st)) = cancels (cb st)"
  by (simp add: requestCancellation_def post_def)

lemma transport_requestCancellation [simp]:
  "transport (requestCancellation st) = transport st"
  by (simp add: requestCancellation_def post_def)

lemma token_read_deliver [simp]: "token (read_deliver e st) = token st"
  by (cases e) (simp_all add: read_cb_defs prim_defs Let_def split: option.splits)

lemma token_connect_deliver [simp]: "token (connect_deliver e st) = token st"
  by (cases e) (simp_all add: connect_defs prim_defs)

lemma token_write_deliver [simp]: "token (write_deliver e st) = token st"
  by (cases e) (simp_all add: write_defs prim_defs)

lemma cancels_read_deliver [simp]: "cancels (cb (read_deliver e st)) = cancels (cb st)"
  by (cases e) (simp_all add: read_cb_defs prim_defs Let_def split: option.splits)

lemma cancels_connect_deliver [simp]: "cancels (cb (connect_deliver e st)) = cancels (cb st)"
  by (cases e) (simp_all add: connect_defs prim_defs)

lemma cancels_write_deliver [simp]: "cancels (cb (write_deliver e st)) = cancels (cb st)"
  by (cases e) (simp_all add: write_defs prim_defs)

lemma posts_read_deliver: "posts (cb st) \<le> posts (cb (read_deliver e st))"
  by (cases e) (simp_all add: read_cb_defs prim_defs Let_def split: option.splits)

lemma posts_connect_deliver: "posts (cb st) \<le> posts (cb (connect_deliver e st))"
  by (cases e) (simp_all add: connect_defs prim_defs)

lemma posts_write_deliver: "posts (cb st) \<le> posts (cb (write_deliver e st))"
  by (cases e) (simp_all add: write_defs prim_defs)

lemma run_append: "run deliver (xs @ ys) st = run deliver ys (run deliver xs st)"
  by (induction xs arbitrary: st) simp_all

lemma token_run_mono:
  assumes "\<And>e st. token (deliver e st) = token st"
  shows "token st \<Longrightarrow> token (run deliver evs st)"
proof (induction evs arbitrary: st)
  case Nil
  then show ?case by simp
next
  case (Cons ev evs)
  then show ?case by (cases ev) (simp_all add: assms)
qed

lemma token_run_cancelled:
  assumes "\<And>e st. token (deliver e st) = token st"
  shows "RequestCancellation \<in> set evs \<Longrightarrow> token (run deliver evs st)"
proof (induction evs arbitrary: st)
  case Nil
  then show ?case by simp
next
  case (Cons ev evs)
  show ?case
  proof (cases ev)
    case (Transport e)
    with Cons show ?thesis by simp
  next
    case RequestCancellation
    then show ?thesis by (simp add: token_run_mono [OF assms])
  qed
qed

lemma token_run_quiet:
  assumes "\<And>e st. token (deliver e st) = token st"
  shows "RequestCancellation \<notin> set evs \<Longrightarrow> token (run deliver evs st) = token st"
proof (induction evs arbitrary: st)
  case Nil
  then show ?case by simp
next
  case (Cons ev evs)
  then show ?case by (cases ev) (simp_all add: assms)
qed

lemma posts_run_mono:
  assumes "\<And>e st. posts (cb st) \<le> posts (cb (deliver e st))"
  shows "posts (cb st) \<le> posts (cb (run deliver evs st))"
proof (induction evs arbitrary: st)
  case Nil
  then show ?case by simp
next
  case (Cons ev evs)
  have "posts (cb st) \<le> posts (cb (step deliver ev st))"
    by (cases ev) (simp_all add: assms posts_requestCancellation)
  also have "\<dots> \<le> posts (cb (run deliver evs (step deliver ev st)))"
    by (rule Cons.IH)
  finally show ?case by simp
qed

lemma posts_run_cancelled:
  assumes mono: "\<And>e st. posts (cb st) \<le> posts (cb (deliver e st))"
    and tok: "\<And>e st. token (deliver e st) = token st"
  shows "RequestCancellation \<in> set evs \<Longrightarrow> \<not> token st \<Longrightarrow> 0 < posts (cb (run deliver evs st))"
proof (induction evs arbitrary: st)
  case Nil
  then show ?case by simp
next
  case (Cons ev evs)
  show ?case
  proof (cases ev)
    case (Transport e)
    with Cons show ?thesis by (simp add: tok)
  next
    case RequestCancellation
    have "0 < posts (cb (requestCancellation st))"
      using Cons.prems(2) by (simp add: posts_requestCancellation)
    also have "\<dots> \<le> posts (cb (run deliver evs (requestCancellation st)))"
      by (rule posts_run_mono [OF mono])
    finally show ?thesis using RequestCancellation by simp
  qed
qed

lemma cancels_run:
  assumes "\<And>e st. cancels (cb (deliver e st)) = cancels (cb st)"
  shows "cancels (cb (run deliver evs st)) = cancels (cb st)"
proof (induction evs arbitrary: st)
  case Nil
  then show ?case by simp
next
  case (Cons ev evs)
  then show ?case by (cases ev) (simp_all add: assms)
qed

text \<open>
  A cancellation request during the wait ends it with \<open>OperationCancelled\<close>, and
  \<open>cancel\<close> runs on the state the events left. A request made before the wait ends it
  at once.
\<close>

lemma wait_cancelled:
  assumes mono: "\<And>e st. posts (cb st) \<le> posts (cb (deliver e st))"
    and tok: "\<And>e st. token (deliver e st) = token st"
    and "RequestCancellation \<in> set evs" and "\<not> token st"
  shows "wait cancel deliver evs st = (Throws OperationCancelled, cancel (run deliver evs st))"
  using posts_run_cancelled [OF mono tok assms(3,4)] token_run_cancelled [OF tok assms(3)] assms(4)
  by (simp add: wait_def Let_def)

lemma wait_requested:
  "token st \<Longrightarrow> wait cancel deliver evs st = (Throws OperationCancelled, cancel st)"
  by (simp add: wait_def)

section \<open>Callbacks that no event reaches any more\<close>

lemma read_deliver_closed:
  "\<not> readCallback (transport st) \<Longrightarrow> \<not> timerScheduled (transport st) \<Longrightarrow> read_deliver e st = st"
  by (cases e) (simp_all add: read_deliver_def)

lemma run_read_closed:
  "\<not> readCallback (transport st) \<Longrightarrow> \<not> timerScheduled (transport st) \<Longrightarrow>
     RequestCancellation \<notin> set evs \<Longrightarrow> run read_deliver evs st = st"
proof (induction evs arbitrary: st)
  case Nil
  then show ?case by simp
next
  case (Cons ev evs)
  then show ?case by (cases ev) (simp_all add: read_deliver_closed)
qed

lemma run_read_closed':
  "\<not> readCallback (transport st) \<Longrightarrow> \<not> timerScheduled (transport st) \<Longrightarrow>
     run read_deliver (map Transport es) st = st"
  by (rule run_read_closed) auto

lemma write_deliver_closed:
  "\<not> writeCallback (transport st) \<Longrightarrow> write_deliver e st = st"
  by (simp add: write_deliver_def)

lemma run_write_closed:
  "\<not> writeCallback (transport st) \<Longrightarrow> RequestCancellation \<notin> set evs \<Longrightarrow>
     run write_deliver evs st = st"
proof (induction evs arbitrary: st)
  case Nil
  then show ?case by simp
next
  case (Cons ev evs)
  then show ?case by (cases ev) (simp_all add: write_deliver_closed)
qed

lemma run_write_closed':
  "\<not> writeCallback (transport st) \<Longrightarrow> run write_deliver (map Transport es) st = st"
  by (induction es arbitrary: st) (simp_all add: write_deliver_closed)

lemma connect_deliver_closed:
  "\<not> connectCallback (transport st) \<Longrightarrow> connect_deliver e st = st"
  by (simp add: connect_deliver_def)

lemma run_connect_closed:
  "\<not> connectCallback (transport st) \<Longrightarrow> run connect_deliver (map Transport es) st = st"
  by (induction es arbitrary: st) (simp_all add: connect_deliver_closed)

lemma timer_fires:
  assumes "timerScheduled (transport st)"
  shows "read_deliver (TimeoutExpired errno) st =
     (if length_cb (cb st) = 0
      then st\<lparr>cb := (cb st)\<lparr>error_cb := Some (timed_out errno), posts := Suc (posts (cb st))\<rparr>,
              transport := (transport st)\<lparr>timerScheduled := False, readCallback := False,
                calls := calls (transport st) @ [SetReadCB False]\<rparr>\<rparr>
      else st\<lparr>transport := (transport st)\<lparr>timerScheduled := False, readCallback := False,
                calls := calls (transport st) @ [SetReadCB False]\<rparr>\<rparr>)"
  using assms by (simp add: read_cb_defs prim_defs Let_def)

lemma posts_run_connect:
  "posts (cb (run connect_deliver (map Transport es) st)) =
     posts (cb st) + (if connectCallback (transport st) \<and> es \<noteq> [] then 1 else 0)"
proof (cases es)
  case Nil
  then show ?thesis by simp
next
  case (Cons e es')
  show ?thesis
  proof (cases "connectCallback (transport st)")
    case True
    have "\<not> connectCallback (transport (connect_deliver e st))"
      using True by (cases e) (simp_all add: connect_defs prim_defs)
    from run_connect_closed [OF this] True show ?thesis
      by (cases e) (simp_all add: Cons, simp_all add: connect_defs prim_defs)
  next
    case False
    then show ?thesis by (simp add: run_connect_closed)
  qed
qed

lemma posts_run_write:
  "posts (cb (run write_deliver (map Transport es) st)) =
     posts (cb st) + (if writeCallback (transport st) \<and> es \<noteq> [] then 1 else 0)"
proof (cases es)
  case Nil
  then show ?thesis by simp
next
  case (Cons e es')
  show ?thesis
  proof (cases "writeCallback (transport st)")
    case True
    have "\<not> writeCallback (transport (write_deliver e st))"
      using True by (cases e) (simp_all add: write_defs prim_defs)
    from run_write_closed' [OF this] True show ?thesis
      by (cases e) (simp_all add: Cons, simp_all add: write_defs prim_defs)
  next
    case False
    then show ?thesis by (simp add: run_write_closed')
  qed
qed

section \<open>The log of transport calls\<close>

lemma calls_read_deliver:
  "\<exists>rest. calls (transport (read_deliver e st)) = calls (transport st) @ rest"
  by (cases e) (simp_all add: read_cb_defs prim_defs Let_def split: option.splits)

lemma calls_run_read:
  "\<exists>rest. calls (transport (run read_deliver evs st)) = calls (transport st) @ rest"
proof (induction evs arbitrary: st)
  case Nil
  then show ?case by simp
next
  case (Cons ev evs)
  obtain r1 where r1: "calls (transport (step read_deliver ev st)) = calls (transport st) @ r1"
    using calls_read_deliver [of _ st] by (cases ev) auto
  obtain r2 where "calls (transport (run read_deliver evs (step read_deliver ev st))) =
      calls (transport (step read_deliver ev st)) @ r2"
    using Cons.IH by blast
  with r1 show ?case by simp
qed

lemma calls_read_wait:
  "\<exists>rest. calls (transport (snd (wait ReadCallback_cancel read_deliver evs st))) =
     calls (transport st) @ rest"
proof -
  obtain r where r: "calls (transport (run read_deliver evs st)) = calls (transport st) @ r"
    using calls_run_read by blast
  show ?thesis
    by (simp add: wait_def Let_def r ReadCallback_cancel_def prim_defs)
qed

lemma calls_read_await:
  "\<exists>rest. calls (asyncSocket (fst (snd (read_await s st0 evs)))) =
     calls (transport st0) @ SetReadCB True # rest"
proof -
  define st1 where "st1 = setReadCB True st0"
  obtain w st2 where w: "wait ReadCallback_cancel read_deliver evs st1 = (w, st2)"
    by (cases "wait ReadCallback_cancel read_deliver evs st1")
  obtain r where "calls (transport st2) = calls (transport st1) @ r"
    using calls_read_wait [of evs st1] by (auto simp: w)
  moreover have "calls (transport st1) = calls (transport st0) @ [SetReadCB True]"
    by (simp add: st1_def prim_defs)
  ultimately have r: "calls (transport st2) = calls (transport st0) @ SetReadCB True # r"
    by simp
  show ?thesis
    using w [unfolded st1_def]
    by (simp add: read_await_def read_finish_def r ReadCallback_destroy_def prim_defs Let_def
        split: task.splits option.splits)
qed

lemma calls_fresh_read:
  "calls (transport (ReadCallback_buf a tok b t)) =
     calls a @ (if 0 < t then [ScheduleTimeout t] else [])"
  "calls (transport (ReadCallback_queue a tok q m n t)) =
     calls a @ (if 0 < t then [ScheduleTimeout t] else [])"
  by (simp_all add: read_ctor_defs prim_defs Let_def)

lemma calls_Socket_read:
  assumes "\<not> deferredReadEOF s"
  shows "\<exists>rest. calls (asyncSocket (fst (snd (Socket_read s tok b t evs)))) =
      calls (asyncSocket s) @ (if 0 < t then [ScheduleTimeout t] else []) @ SetReadCB True # rest"
    and "\<exists>rest. calls (asyncSocket (fst (snd (Socket_read_queue s tok q m n t evs)))) =
      calls (asyncSocket s) @ (if 0 < t then [ScheduleTimeout t] else []) @ SetReadCB True # rest"
  using assms calls_read_await [of s "ReadCallback_buf (asyncSocket s) tok b t" evs]
    calls_read_await [of s "ReadCallback_queue (asyncSocket s) tok q m n t" evs]
  by (simp_all add: Socket_read_def Socket_read_queue_def calls_fresh_read)

lemma calls_write_deliver [simp]: "calls (transport (write_deliver e st)) = calls (transport st)"
  by (cases e) (simp_all add: write_defs prim_defs)

lemma calls_run_write [simp]:
  "calls (transport (run write_deliver evs st)) = calls (transport st)"
proof (induction evs arbitrary: st)
  case Nil
  then show ?case by simp
next
  case (Cons ev evs)
  then show ?case by (cases ev) simp_all
qed

lemma cancels_WriteCallback_cancel [simp]:
  "cancels (cb (WriteCallback_cancel rst st)) = Suc (cancels (cb st))"
  by (cases rst) (simp_all add: WriteCallback_cancel_def prim_defs Let_def)

lemma calls_WriteCallback_cancel [simp]:
  "calls (transport (WriteCallback_cancel rst st)) = calls (transport st) @ [CloseWithReset]"
  by (cases rst) (simp_all add: WriteCallback_cancel_def prim_defs Let_def)

section \<open>Reads\<close>

lemma fresh_read [simp]:
  "token (ReadCallback_buf a tok b t) = tok"
  "cancels (cb (ReadCallback_buf a tok b t)) = 0"
  "posts (cb (ReadCallback_buf a tok b t)) = 0"
  "token (ReadCallback_queue a tok q m n t) = tok"
  "cancels (cb (ReadCallback_queue a tok q m n t)) = 0"
  "posts (cb (ReadCallback_queue a tok q m n t)) = 0"
  by (simp_all add: read_ctor_defs prim_defs Let_def)

lemma read_deferred:
  "deferredReadEOF s \<Longrightarrow>
     Socket_read s tok b timeout evs = (Returns 0, s\<lparr>deferredReadEOF := False\<rparr>, None)"
  "deferredReadEOF s \<Longrightarrow>
     Socket_read_queue s tok q m n timeout evs = (Returns 0, s\<lparr>deferredReadEOF := False\<rparr>, None)"
  by (simp_all add: Socket_read_def Socket_read_queue_def)

lemma all_delivered_data_eof_buf:
  "all_delivered [Transport (ReadDataAvailable N), Transport ReadEOF]
     (setReadCB True (ReadCallback_buf a False b timeout)) \<longleftrightarrow> N \<noteq> r_size b"
  by (auto simp: prim_defs read_cb_defs read_ctor_defs Let_def)

lemma all_delivered_data_eof_queue:
  "all_delivered [Transport (ReadDataAvailable N), Transport ReadEOF]
     (setReadCB True (ReadCallback_queue a False q m n timeout))"
  by (auto simp: prim_defs read_cb_defs read_ctor_defs Let_def)

lemma data_eof_buf:
  assumes "\<not> deferredReadEOF s" and "N \<noteq> 0" and "N \<noteq> r_size b"
  shows "\<exists>s1 c. Socket_read s False b timeout [Transport (ReadDataAvailable N), Transport ReadEOF] =
           (Returns N, s1, c) \<and> deferredReadEOF s1"
  using assms
  by (simp add: Socket_read_def read_await_def read_finish_def wait_def prim_defs read_cb_defs read_ctor_defs
      Let_def word_greater_zero_iff)

lemma data_eof_queue:
  assumes "\<not> deferredReadEOF s" and "N \<noteq> 0"
  shows "\<exists>s1 c. Socket_read_queue s False q m n timeout
            [Transport (ReadDataAvailable N), Transport ReadEOF] =
           (Returns N, s1, c) \<and> deferredReadEOF s1"
  using assms
  by (simp add: Socket_read_queue_def read_await_def read_finish_def wait_def prim_defs read_cb_defs read_ctor_defs
      Let_def word_greater_zero_iff)

lemma eof_only:
  assumes "\<not> deferredReadEOF s"
  shows "\<exists>s1 c. Socket_read s False b t [Transport ReadEOF] = (Returns 0, s1, c) \<and>
           \<not> deferredReadEOF s1"
    and "\<exists>s1 c. Socket_read_queue s False q m n t [Transport ReadEOF] = (Returns 0, s1, c) \<and>
           \<not> deferredReadEOF s1"
  using assms
  by (simp_all add: Socket_read_def Socket_read_queue_def read_await_def read_finish_def wait_def prim_defs
      read_cb_defs read_ctor_defs Let_def)

lemma read_await_throws:
  "fst (read_await s st0 evs) = Throws e \<Longrightarrow>
     deferredReadEOF (fst (snd (read_await s st0 evs))) = deferredReadEOF s"
  by (auto simp: read_await_def read_finish_def Let_def split: prod.splits task.splits option.splits)

lemma read_await_cancelled:
  assumes "RequestCancellation \<in> set evs" and "\<not> token st0"
  shows "fst (read_await s st0 evs) = Throws OperationCancelled"
    and "map_option cancels (snd (snd (read_await s st0 evs))) = Some (Suc (cancels (cb st0)))"
  using assms
  by (simp_all add: read_await_def read_finish_def Let_def prim_defs
      wait_cancelled [OF posts_read_deliver token_read_deliver]
      ReadCallback_cancel_def cancels_run [of read_deliver, OF cancels_read_deliver])

subsection \<open>The invariant of a read in flight\<close>

lemma read_inv_deliver: "read_inv st \<Longrightarrow> read_inv (read_deliver e st)"
  by (cases e)
     (auto simp: read_inv_def read_cb_defs prim_defs Let_def split: option.splits)

lemma read_inv_requestCancellation: "read_inv st \<Longrightarrow> read_inv (requestCancellation st)"
  by (auto simp: read_inv_def requestCancellation_def post_def)

lemma read_inv_run: "read_inv st \<Longrightarrow> read_inv (run read_deliver evs st)"
proof (induction evs arbitrary: st)
  case Nil
  then show ?case by simp
next
  case (Cons ev evs)
  then show ?case
    by (cases ev) (simp_all add: read_inv_deliver read_inv_requestCancellation)
qed

lemma read_inv_issued:
  "read_inv (setReadCB True (ReadCallback_buf a tok b t))"
  "read_inv (setReadCB True (ReadCallback_queue a tok q m n t))"
  by (simp_all add: read_inv_def read_ctor_defs prim_defs Let_def)

lemma read_await_timer:
  assumes tok: "\<not> token st0"
    and quiet: "RequestCancellation \<notin> set bef" "RequestCancellation \<notin> set aft"
    and inv: "read_inv (setReadCB True st0)"
    and st: "st = run read_deliver bef (setReadCB True st0)"
    and fires: "timerScheduled (transport st)"
  shows "fst (read_await s st0 (bef @ Transport (TimeoutExpired errno) # aft)) =
     (if length_cb (cb st) = 0 then Throws (timed_out errno) else Returns (length_cb (cb st)))"
proof -
  let ?st' = "read_deliver (TimeoutExpired errno) st"
  have i: "read_inv st" unfolding st by (rule read_inv_run [OF inv])
  with fires have e: "error_cb (cb st) = None" by (simp add: read_inv_def)
  have p: "length_cb (cb st) \<noteq> 0 \<Longrightarrow> 0 < posts (cb st)" using i by (simp add: read_inv_def)
  have t: "\<not> token st"
    unfolding st using tok quiet(1)
    by (simp add: token_run_quiet [of read_deliver, OF token_read_deliver] prim_defs)
  have closed: "\<not> readCallback (transport ?st')" "\<not> timerScheduled (transport ?st')"
    by (simp_all add: timer_fires [OF fires])
  have fin: "run read_deliver (bef @ Transport (TimeoutExpired errno) # aft) (setReadCB True st0) = ?st'"
    by (simp add: run_append st [symmetric] run_read_closed [OF closed quiet(2)])
  have tok1: "\<not> token (setReadCB True st0)" using tok by (simp add: prim_defs)
  have w: "wait ReadCallback_cancel read_deliver (bef @ Transport (TimeoutExpired errno) # aft)
      (setReadCB True st0) = (Returns (), ?st')"
    using tok1 t p
    by (simp add: wait_def fin Let_def del: run.simps) (simp add: timer_fires [OF fires])
  show ?thesis
    by (simp add: read_await_def w read_finish_def) (simp add: timer_fires [OF fires] e prim_defs Let_def)
qed

subsection \<open>A fixed buffer is never overrun\<close>

lemma word_fill: "(x::size_t) \<le> s \<Longrightarrow> l \<le> s - x \<Longrightarrow> x + l \<le> s"
  by unat_arith

lemma fits_data:
  assumes "fits b st" and "len \<le> snd (getReadBuffer preallocate (cb st))"
  shows "fits b (readDataAvailable len st)"
  using assms
  by (auto simp: fits_def getReadBuffer_def readDataAvailable_def prim_defs Let_def word_fill)

lemma fits_other:
  "fits b st \<Longrightarrow> fits b (readEOF st)"
  "fits b st \<Longrightarrow> fits b (readErr ex st)"
  "fits b st \<Longrightarrow> fits b (timeoutExpired errno (on_transport f st))"
  "fits b st \<Longrightarrow> fits b (requestCancellation st)"
  by (auto simp: fits_def read_cb_defs prim_defs Let_def requestCancellation_def)

lemma fits_run:
  "fits b st \<Longrightarrow> within_offer preallocate evs st \<Longrightarrow> fits b (run read_deliver evs st)"
proof (induction evs arbitrary: st)
  case Nil
  then show ?case by simp
next
  case (Cons ev evs)
  have "fits b (step read_deliver ev st) \<and> within_offer preallocate evs (step read_deliver ev st)"
  proof (cases ev)
    case RequestCancellation
    with Cons.prems show ?thesis by (simp add: fits_other)
  next
    case (Transport e)
    show ?thesis
    proof (cases e)
      case (ReadDataAvailable len)
      show ?thesis
      proof (cases "readCallback (transport st)")
        case True
        with Cons.prems Transport ReadDataAvailable
        have "len \<le> snd (getReadBuffer preallocate (cb st))"
          and w: "within_offer preallocate evs (readDataAvailable len st)"
          by (simp_all add: read_deliver_simps)
        from fits_data [OF Cons.prems(1) this(1)] w True Transport ReadDataAvailable
        show ?thesis by (simp add: read_deliver_simps)
      next
        case False
        with Cons.prems Transport ReadDataAvailable show ?thesis
          by (simp add: read_deliver_simps)
      qed
    next
      case ReadEOF
      with Cons.prems Transport show ?thesis by (simp add: read_deliver_simps fits_other)
    next
      case (ReadErr ex)
      with Cons.prems Transport show ?thesis by (simp add: read_deliver_simps fits_other)
    next
      case (TimeoutExpired errno)
      with Cons.prems Transport show ?thesis by (simp add: read_deliver_simps fits_other)
    qed
  qed
  then show ?case using Cons.IH by simp
qed

lemma within_offer_append:
  "within_offer preallocate (xs @ ys) st \<longleftrightarrow>
     within_offer preallocate xs st \<and> within_offer preallocate ys (run read_deliver xs st)"
  by (induction preallocate xs st rule: within_offer.induct) simp_all

lemma fits_issued: "fits b (setReadCB True (ReadCallback_buf a tok b t))"
  by (simp add: fits_def read_ctor_defs prim_defs Let_def)

lemma fits_wait:
  assumes "fits b st" and "within_offer preallocate evs st"
  shows "fits b (snd (wait ReadCallback_cancel read_deliver evs st))"
  using assms(1) fits_run [OF assms]
  by (auto simp: wait_def Let_def) (auto simp: fits_def ReadCallback_cancel_def prim_defs)

section \<open>Connects and writes\<close>

lemma connect_cancelled:
  assumes "RequestCancellation \<in> set evs"
  shows "fst (Socket_connect evb False destAddr t evs) = Throws OperationCancelled"
    and "cancels (snd (snd (Socket_connect evb False destAddr t evs))) = 1"
  using assms
  by (simp_all add: Socket_connect_def connect_finish_def Let_def prim_defs
      wait_cancelled [OF posts_connect_deliver token_connect_deliver]
      ConnectCallback_cancel_def cancels_run [of connect_deliver, OF cancels_connect_deliver])

lemma issued_write [simp]:
  "writeCallback (transport (on_transport (\<lambda>a. called c (a\<lparr>writeCallback := True\<rparr>))
     (WriteCallback_new a tok)))"
  "token (on_transport f (WriteCallback_new a tok)) = tok"
  by (simp_all add: WriteCallback_new_def prim_defs)

lemma write_await_cancelled:
  assumes "RequestCancellation \<in> set evs" and "\<not> token st0"
  shows "fst (write_await s st0 wi inl evs rst) = Throws OperationCancelled"
    and "cancels (snd (snd (snd (write_await s st0 wi inl evs rst)))) = Suc (cancels (cb st0))"
proof -
  let ?st1 = "run write_deliver (map Transport inl) st0"
  have t: "\<not> token ?st1"
    using assms(2) by (simp add: token_run_quiet [of write_deliver, OF token_write_deliver] image_iff)
  have c: "cancels (cb ?st1) = cancels (cb st0)"
    by (rule cancels_run [of write_deliver, OF cancels_write_deliver])
  have w: "wait (WriteCallback_cancel rst) write_deliver evs ?st1 =
      (Throws OperationCancelled, WriteCallback_cancel rst (run write_deliver evs ?st1))"
    by (rule wait_cancelled [OF posts_write_deliver token_write_deliver assms(1) t])
  have k: "cancels (cb (WriteCallback_cancel rst st)) = Suc (cancels (cb st))" for st
    by (cases rst) (simp_all add: WriteCallback_cancel_def prim_defs Let_def)
  show "fst (write_await s st0 wi inl evs rst) = Throws OperationCancelled"
    by (simp add: write_await_def write_finish_def Let_def w)
  show "cancels (snd (snd (snd (write_await s st0 wi inl evs rst)))) = Suc (cancels (cb st0))"
    by (simp add: write_await_def write_finish_def Let_def w k c cancels_run [of write_deliver, OF cancels_write_deliver])
qed

lemma write_await_requested:
  assumes "token st0"
  shows "fst (write_await s st0 wi inl evs rst) = Throws OperationCancelled"
    and "calls (asyncSocket (fst (snd (write_await s st0 wi inl evs rst)))) =
           calls (transport st0) @ [CloseWithReset]"
    and "cancels (snd (snd (snd (write_await s st0 wi inl evs rst)))) = Suc (cancels (cb st0))"
proof -
  let ?st1 = "run write_deliver (map Transport inl) st0"
  have t: "token ?st1"
    using assms by (rule token_run_mono [of write_deliver, OF token_write_deliver])
  have c: "cancels (cb ?st1) = cancels (cb st0)"
    by (rule cancels_run [of write_deliver, OF cancels_write_deliver])
  show "fst (write_await s st0 wi inl evs rst) = Throws OperationCancelled"
    by (simp add: write_await_def write_finish_def Let_def wait_requested [OF t])
  show "calls (asyncSocket (fst (snd (write_await s st0 wi inl evs rst)))) =
           calls (transport st0) @ [CloseWithReset]"
    by (simp add: write_await_def write_finish_def Let_def wait_requested [OF t])
  show "cancels (snd (snd (snd (write_await s st0 wi inl evs rst)))) = Suc (cancels (cb st0))"
    by (simp add: write_await_def write_finish_def Let_def wait_requested [OF t] c)
qed

lemma run_write_failed:
  assumes "writeCallback (transport st)" and "RequestCancellation \<notin> set evs"
  shows "run write_deliver (Transport (WriteErr k ex) # evs) st =
           writeErr k ex (on_transport (\<lambda>a. a\<lparr>writeCallback := False\<rparr>) st)"
proof -
  have "\<not> writeCallback (transport (writeErr k ex (on_transport (\<lambda>a. a\<lparr>writeCallback := False\<rparr>) st)))"
    by (simp add: writeErr_def prim_defs)
  from run_write_closed [OF this assms(2)] assms(1) show ?thesis
    by (simp add: write_deliver_def)
qed

lemma write_await_failed:
  assumes w: "writeCallback (transport st0)" and t: "\<not> token st0"
    and q: "RequestCancellation \<notin> set evs"
  shows "write_await s st0 wi [] (Transport (WriteErr k ex) # evs) rst =
           (Throws (SocketError ex), s\<lparr>asyncSocket := (transport st0)\<lparr>writeCallback := False\<rparr>\<rparr>,
            map_option (\<lambda>w. w\<lparr>wi_bytesWritten := k\<rparr>) wi,
            (cb st0)\<lparr>bytesWritten := k, error_w := Some ex, posts := Suc (posts (cb st0))\<rparr>)"
proof -
  let ?st = "writeErr k ex (on_transport (\<lambda>a. a\<lparr>writeCallback := False\<rparr>) st0)"
  have 1: "run write_deliver (map Transport []) st0 = st0" by simp
  have 2: "run write_deliver (Transport (WriteErr k ex) # evs) st0 = ?st"
    by (rule run_write_failed [OF w q])
  show ?thesis
    using t
    by (cases wi)
       (simp_all add: write_await_def write_finish_def wait_def Let_def 1 2 populate_def
          del: run.simps list.map, simp_all add: writeErr_def prim_defs populate_def)
qed

lemma write_await_failed_inline:
  assumes w: "writeCallback (transport st0)" and t: "\<not> token st0"
    and q: "RequestCancellation \<notin> set evs"
  shows "write_await s st0 wi (WriteErr k ex # inl) evs rst =
           (Throws (SocketError ex), s\<lparr>asyncSocket := (transport st0)\<lparr>writeCallback := False\<rparr>\<rparr>,
            map_option (\<lambda>w. w\<lparr>wi_bytesWritten := k\<rparr>) wi,
            (cb st0)\<lparr>bytesWritten := k, error_w := Some ex, posts := Suc (posts (cb st0))\<rparr>)"
proof -
  let ?st = "writeErr k ex (on_transport (\<lambda>a. a\<lparr>writeCallback := False\<rparr>) st0)"
  have i: "RequestCancellation \<notin> set (map Transport inl)" by auto
  have 1: "run write_deliver (map Transport (WriteErr k ex # inl)) st0 = ?st"
    using run_write_failed [OF w i, of k ex] by simp
  have c: "\<not> writeCallback (transport ?st)" by (simp add: writeErr_def prim_defs)
  have 2: "run write_deliver evs ?st = ?st" by (rule run_write_closed [OF c q])
  show ?thesis
    using t
    by (cases wi)
       (simp_all add: write_await_def write_finish_def wait_def Let_def 1 2 populate_def
          del: run.simps list.map, simp_all add: writeErr_def prim_defs populate_def)
qed

lemma write_await_throws:
  "fst (write_await s st0 wi inl evs rst) = Throws e \<Longrightarrow>
     fst (snd (snd (write_await s st0 wi inl evs rst))) =
       map_option (\<lambda>w. w\<lparr>wi_bytesWritten := bytesWritten (snd (snd (snd (write_await s st0 wi inl evs rst))))\<rparr>) wi"
  by (cases wi)
     (auto simp: write_await_def write_finish_def Let_def populate_def
        split: prod.splits task.splits option.splits)

section \<open>The claims\<close>

text \<open>
  In every statement below \<open>tok\<close> (the argument after the socket or the event base)
  is \<open>False\<close> when no cancellation was requested before the call, and a list of events
  without \<open>RequestCancellation\<close> is a run of the reactor in which nobody requests
  cancellation.
\<close>

text \<open>
  Claim C1. A read, into a fixed buffer or a growing one, to which the transport
  delivers \<open>N > 0\<close> bytes and then end-of-stream before the adapter runs again returns
  \<open>N\<close> and sets \<^verbatim>\<open>deferredReadEOF_\<close>. The next read on that socket, of either
  kind, returns 0 whatever the token and the events are, leaves the
  transport as it was (only \<^verbatim>\<open>deferredReadEOF_\<close> is cleared) and constructs no
  callback: it registers nothing and does not suspend. In growing mode both events
  always reach the callback; in fixed mode the end-of-stream reaches it when the data
  did not fill the buffer exactly.
\<close>

theorem read_data_and_eof_defers_eof:
  assumes "\<not> deferredReadEOF s" and "0 < N"
  shows "(all_delivered [Transport (ReadDataAvailable N), Transport ReadEOF]
            (setReadCB True (ReadCallback_buf (asyncSocket s) False b timeout)) \<longrightarrow>
          (let (r, s1, c) = Socket_read s False b timeout
                 [Transport (ReadDataAvailable N), Transport ReadEOF]
           in r = Returns N \<and> deferredReadEOF s1 \<and>
              Socket_read s1 tok' b' t' evs = (Returns 0, s1\<lparr>deferredReadEOF := False\<rparr>, None) \<and>
              Socket_read_queue s1 tok' q' m' n' t' evs =
                (Returns 0, s1\<lparr>deferredReadEOF := False\<rparr>, None))) \<and>
         (all_delivered [Transport (ReadDataAvailable N), Transport ReadEOF]
            (setReadCB True (ReadCallback_queue (asyncSocket s) False q m n timeout)) \<and>
          (let (r, s1, c) = Socket_read_queue s False q m n timeout
                 [Transport (ReadDataAvailable N), Transport ReadEOF]
           in r = Returns N \<and> deferredReadEOF s1 \<and>
              Socket_read s1 tok' b' t' evs = (Returns 0, s1\<lparr>deferredReadEOF := False\<rparr>, None) \<and>
              Socket_read_queue s1 tok' q' m' n' t' evs =
                (Returns 0, s1\<lparr>deferredReadEOF := False\<rparr>, None)))"
proof -
  from assms(2) have N: "N \<noteq> 0" by auto
  have A: "let (r, s1, c) = Socket_read s False b timeout
                 [Transport (ReadDataAvailable N), Transport ReadEOF]
           in r = Returns N \<and> deferredReadEOF s1 \<and>
              Socket_read s1 tok' b' t' evs = (Returns 0, s1\<lparr>deferredReadEOF := False\<rparr>, None) \<and>
              Socket_read_queue s1 tok' q' m' n' t' evs =
                (Returns 0, s1\<lparr>deferredReadEOF := False\<rparr>, None)"
    if "N \<noteq> r_size b"
  proof -
    from data_eof_buf [OF assms(1) N that] obtain s1 c where
      "Socket_read s False b timeout [Transport (ReadDataAvailable N), Transport ReadEOF] =
         (Returns N, s1, c)" and "deferredReadEOF s1" by blast
    then show ?thesis by (simp add: read_deferred)
  qed
  have B: "let (r, s1, c) = Socket_read_queue s False q m n timeout
                 [Transport (ReadDataAvailable N), Transport ReadEOF]
           in r = Returns N \<and> deferredReadEOF s1 \<and>
              Socket_read s1 tok' b' t' evs = (Returns 0, s1\<lparr>deferredReadEOF := False\<rparr>, None) \<and>
              Socket_read_queue s1 tok' q' m' n' t' evs =
                (Returns 0, s1\<lparr>deferredReadEOF := False\<rparr>, None)"
  proof -
    from data_eof_queue [OF assms(1) N] obtain s1 c where
      "Socket_read_queue s False q m n timeout
         [Transport (ReadDataAvailable N), Transport ReadEOF] = (Returns N, s1, c)"
      and "deferredReadEOF s1" by blast
    then show ?thesis by (simp add: read_deferred)
  qed
  show ?thesis
    using A B all_delivered_data_eof_queue all_delivered_data_eof_buf by blast
qed

theorem read_data_and_eof_defers_eof_witness:
  "\<not> deferredReadEOF sock0 \<and> (0::size_t) < 4 \<and>
   all_delivered [Transport (ReadDataAvailable 4), Transport ReadEOF]
     (setReadCB True (ReadCallback_buf (asyncSocket sock0) False buf10 0)) \<and>
   fst (Socket_read sock0 False buf10 0 [Transport (ReadDataAvailable 4), Transport ReadEOF]) =
     Returns 4 \<and>
   deferredReadEOF (fst (snd (Socket_read sock0 False buf10 0
     [Transport (ReadDataAvailable 4), Transport ReadEOF]))) \<and>
   fst (Socket_read (fst (snd (Socket_read sock0 False buf10 0
     [Transport (ReadDataAvailable 4), Transport ReadEOF]))) False buf10 0 []) = Returns 0"
proof -
  have d: "\<not> deferredReadEOF sock0" by simp
  have n: "(0::size_t) < 4" by simp
  have a: "all_delivered [Transport (ReadDataAvailable 4), Transport ReadEOF]
     (setReadCB True (ReadCallback_buf (asyncSocket sock0) False buf10 0))"
    by (simp add: prim_defs read_cb_defs read_ctor_defs newSocket_def)
  from read_data_and_eof_defers_eof [OF d n, where b = buf10 and timeout = 0 and tok' = False and b' = buf10
      and t' = 0 and evs = "[]"] a d n
  show ?thesis by (simp add: case_prod_beta)
qed

text \<open>
  Claim C2. For connect, both reads (with no deferred end-of-stream pending, so that
  an operation is issued) and both writes: if the token is not cancelled when the
  operation is issued and cancellation is requested at any point before the adapter
  runs again, the result is \<open>OperationCancelled\<close> and \<^verbatim>\<open>cancel()\<close> has run exactly
  once on the callback, whatever outcome the transport recorded before or after the
  request.
\<close>

theorem cancellation_during_wait:
  "(RequestCancellation \<in> set evc \<longrightarrow>
      (let (r, a, c) = Socket_connect evb False destAddr t evc
       in r = Throws OperationCancelled \<and> cancels c = 1)) \<and>
   (RequestCancellation \<in> set evr \<and> \<not> deferredReadEOF s \<longrightarrow>
      (let (r, s', c) = Socket_read s False b t evr
       in r = Throws OperationCancelled \<and> map_option cancels c = Some 1) \<and>
      (let (r, s', c) = Socket_read_queue s False q m n t evr
       in r = Throws OperationCancelled \<and> map_option cancels c = Some 1)) \<and>
   (RequestCancellation \<in> set evw \<longrightarrow>
      (let (r, s', wi, c) = Socket_write s False b t writeInfo inl evw rst
       in r = Throws OperationCancelled \<and> cancels c = 1) \<and>
      (let (r, s', wi, c) = Socket_write_queue s False (Some iovec) t writeInfo inl evw rst
       in r = Throws OperationCancelled \<and> cancels c = 1))"
proof (intro conjI impI)
  assume "RequestCancellation \<in> set evc"
  from connect_cancelled [OF this, of evb destAddr t]
  show "let (r, a, c) = Socket_connect evb False destAddr t evc
       in r = Throws OperationCancelled \<and> cancels c = 1"
    by (simp add: case_prod_beta)
next
  assume a: "RequestCancellation \<in> set evr \<and> \<not> deferredReadEOF s"
  then have r: "RequestCancellation \<in> set evr" and d: "\<not> deferredReadEOF s" by simp_all
  show "let (r, s', c) = Socket_read s False b t evr
       in r = Throws OperationCancelled \<and> map_option cancels c = Some 1"
    using read_await_cancelled [OF r, of "ReadCallback_buf (asyncSocket s) False b t" s] d
    by (simp add: case_prod_beta Socket_read_def)
  show "let (r, s', c) = Socket_read_queue s False q m n t evr
       in r = Throws OperationCancelled \<and> map_option cancels c = Some 1"
    using read_await_cancelled [OF r, of "ReadCallback_queue (asyncSocket s) False q m n t" s] d
    by (simp add: case_prod_beta Socket_read_queue_def)
next
  assume w: "RequestCancellation \<in> set evw"
  show "let (r, s', wi, c) = Socket_write s False b t writeInfo inl evw rst
       in r = Throws OperationCancelled \<and> cancels c = 1"
    by (simp add: case_prod_beta Socket_write_def Let_def write_await_cancelled [OF w]
        WriteCallback_new_def prim_defs)
  show "let (r, s', wi, c) = Socket_write_queue s False (Some iovec) t writeInfo inl evw rst
       in r = Throws OperationCancelled \<and> cancels c = 1"
    by (simp add: case_prod_beta Socket_write_queue_def Let_def write_await_cancelled [OF w]
        WriteCallback_new_def prim_defs)
qed

theorem cancellation_during_wait_witness:
  "RequestCancellation \<in> set [Transport ConnectSuccess, RequestCancellation] \<and>
   fst (Socket_connect 0 False ''host'' 50 [Transport ConnectSuccess, RequestCancellation]) =
     Throws OperationCancelled \<and>
   RequestCancellation \<in> set [Transport (ReadDataAvailable 3), RequestCancellation] \<and>
   \<not> deferredReadEOF sock0 \<and>
   fst (Socket_read sock0 False buf10 50 [Transport (ReadDataAvailable 3), RequestCancellation]) =
     Throws OperationCancelled \<and>
   RequestCancellation \<in> set [Transport WriteSuccess, RequestCancellation] \<and>
   fst (Socket_write sock0 False buf10 50 None [] [Transport WriteSuccess, RequestCancellation] None) =
     Throws OperationCancelled"
  using cancellation_during_wait [where evc = "[Transport ConnectSuccess, RequestCancellation]" and evb = 0
      and destAddr = "''host''" and t = 50
      and evr = "[Transport (ReadDataAvailable 3), RequestCancellation]" and s = sock0
      and b = buf10 and evw = "[Transport WriteSuccess, RequestCancellation]"
      and writeInfo = None and inl = "[]" and rst = None
      and q = "\<lparr>chainLength = 0\<rparr>" and m = 0 and n = 0 and iovec = "[]"]
  by (simp add: case_prod_beta)

text \<open>
  Claim C3, as stated, fails: with cancellation requested before the call the result
  is \<open>OperationCancelled\<close>, but the adapter has registered with the transport first.
  \<^verbatim>\<open>wait\<close> is entered only after \<^verbatim>\<open>setReadCB(&cb)\<close>, \<^verbatim>\<open>connect\<close> or \<^verbatim>\<open>write\<close> was
  called. On a fresh socket and a 10-byte buffer:
\<close>

theorem cancelled_before_call_registers:
  "fst (Socket_read sock0 True buf10 0 []) = Throws OperationCancelled \<and>
   calls (asyncSocket (fst (snd (Socket_read sock0 True buf10 0 [])))) =
     [SetReadCB True, SetReadCB False, CancelTimeout] \<and>
   calls (fst (snd (Socket_connect 0 True ''host'' 50 []))) =
     [SetReadCB False, Connect ''host'' 50, CancelConnect] \<and>
   calls (asyncSocket (fst (snd (Socket_write sock0 True buf10 0 None [] [] None)))) =
     [SetSendTimeout 0, Write 4096 10, CloseWithReset]"
  by (simp add: Socket_read_def read_await_def read_finish_def wait_def Let_def prim_defs
        read_cb_defs read_ctor_defs newSocket_def Socket_connect_def connect_finish_def
        ConnectCallback_cancel_def Socket_write_def write_await_def write_finish_def write_defs)

text \<open>
  Claim C3, amended. If cancellation is already requested when the operation is
  called (for a read: with no deferred end-of-stream pending), the result is
  \<open>OperationCancelled\<close> whatever the events are, so the adapter does not suspend; the
  operation is first issued to the transport (\<^verbatim>\<open>connect\<close>; the read timer if the
  timeout is positive, then \<^verbatim>\<open>setReadCB(&cb)\<close>; \<^verbatim>\<open>setSendTimeout\<close>, then \<^verbatim>\<open>write\<close>
  or \<^verbatim>\<open>writev\<close>) and then undone by exactly one \<^verbatim>\<open>cancel()\<close> (\<^verbatim>\<open>cancelConnect\<close>;
  \<^verbatim>\<open>setReadCB(nullptr)\<close> and \<^verbatim>\<open>cancelTimeout\<close>; \<^verbatim>\<open>closeWithReset\<close>), and these are all
  the calls made.
\<close>

theorem cancelled_before_call:
  "(let (r, a, c) = Socket_connect evb True destAddr t evc
    in r = Throws OperationCancelled \<and>
       calls a = [SetReadCB False, Connect destAddr (word_of_int t), CancelConnect] \<and>
       cancels c = 1) \<and>
   (\<not> deferredReadEOF s \<longrightarrow>
      (let (r, s', c) = Socket_read s True b t evr
       in r = Throws OperationCancelled \<and>
          calls (asyncSocket s') = calls (asyncSocket s) @
            (if 0 < t then [ScheduleTimeout t] else []) @
            [SetReadCB True, SetReadCB False, CancelTimeout] \<and>
          map_option cancels c = Some 1) \<and>
      (let (r, s', c) = Socket_read_queue s True q m n t evr
       in r = Throws OperationCancelled \<and>
          calls (asyncSocket s') = calls (asyncSocket s) @
            (if 0 < t then [ScheduleTimeout t] else []) @
            [SetReadCB True, SetReadCB False, CancelTimeout] \<and>
          map_option cancels c = Some 1)) \<and>
   (let (r, s', wi, c) = Socket_write s True b t writeInfo inl evw rst
    in r = Throws OperationCancelled \<and>
       calls (asyncSocket s') = calls (asyncSocket s) @
         [SetSendTimeout (word_of_int t), Write (r_begin b) (r_size b), CloseWithReset] \<and>
       cancels c = 1) \<and>
   (let (r, s', wi, c) = Socket_write_queue s True (Some iovec) t writeInfo inl evw rst
    in r = Throws OperationCancelled \<and>
       calls (asyncSocket s') = calls (asyncSocket s) @
         [SetSendTimeout (word_of_int t), Writev iovec, CloseWithReset] \<and>
       cancels c = 1)"
proof (intro conjI impI)
  show "let (r, a, c) = Socket_connect evb True destAddr t evc
    in r = Throws OperationCancelled \<and>
       calls a = [SetReadCB False, Connect destAddr (word_of_int t), CancelConnect] \<and>
       cancels c = 1"
    by (simp add: Socket_connect_def connect_finish_def wait_def Let_def prim_defs
        ConnectCallback_cancel_def newSocket_def)
next
  assume d: "\<not> deferredReadEOF s"
  show "let (r, s', c) = Socket_read s True b t evr
       in r = Throws OperationCancelled \<and>
          calls (asyncSocket s') = calls (asyncSocket s) @
            (if 0 < t then [ScheduleTimeout t] else []) @
            [SetReadCB True, SetReadCB False, CancelTimeout] \<and>
          map_option cancels c = Some 1"
    using d
    by (simp add: Socket_read_def read_await_def read_finish_def wait_def Let_def prim_defs
        read_cb_defs read_ctor_defs)
  show "let (r, s', c) = Socket_read_queue s True q m n t evr
       in r = Throws OperationCancelled \<and>
          calls (asyncSocket s') = calls (asyncSocket s) @
            (if 0 < t then [ScheduleTimeout t] else []) @
            [SetReadCB True, SetReadCB False, CancelTimeout] \<and>
          map_option cancels c = Some 1"
    using d
    by (simp add: Socket_read_queue_def read_await_def read_finish_def wait_def Let_def prim_defs
        read_cb_defs read_ctor_defs)
next
  show "let (r, s', wi, c) = Socket_write s True b t writeInfo inl evw rst
    in r = Throws OperationCancelled \<and>
       calls (asyncSocket s') = calls (asyncSocket s) @
         [SetSendTimeout (word_of_int t), Write (r_begin b) (r_size b), CloseWithReset] \<and>
       cancels c = 1"
    by (simp add: case_prod_beta Socket_write_def Let_def write_await_requested
        WriteCallback_new_def prim_defs)
  show "let (r, s', wi, c) = Socket_write_queue s True (Some iovec) t writeInfo inl evw rst
    in r = Throws OperationCancelled \<and>
       calls (asyncSocket s') = calls (asyncSocket s) @
         [SetSendTimeout (word_of_int t), Writev iovec, CloseWithReset] \<and>
       cancels c = 1"
    by (simp add: case_prod_beta Socket_write_queue_def Let_def write_await_requested
        WriteCallback_new_def prim_defs)
qed

theorem cancelled_before_call_witness:
  "\<not> deferredReadEOF sock0 \<and>
   fst (Socket_read sock0 True buf10 5 []) = Throws OperationCancelled \<and>
   calls (asyncSocket (fst (snd (Socket_read sock0 True buf10 5 [])))) =
     [ScheduleTimeout 5, SetReadCB True, SetReadCB False, CancelTimeout]"
  using cancelled_before_call [where s = sock0 and b = buf10 and t = 5 and evr = "[]" and evb = 0
      and destAddr = "''host''" and evc = "[]" and q = "\<lparr>chainLength = 0\<rparr>" and m = 0 and n = 0
      and writeInfo = None and inl = "[]" and evw = "[]" and rst = None and iovec = "[]"]
  by (simp add: case_prod_beta newSocket_def)

text \<open>
  Claim C4. Take a read with a nonzero timeout, of either kind, during which nobody
  requests cancellation, and let the timer fire after the events \<open>bef\<close>, in the state
  \<open>st\<close>. If the callback has counted zero bytes, \<open>timeoutExpired\<close> deregisters it,
  records the timed-out error and posts, and the read throws that error. If it has
  counted bytes, \<open>timeoutExpired\<close> records no error and does not post, and the read
  returns the count. Whatever events \<open>aft\<close> follow the timer change nothing.
\<close>

theorem read_timeout_or_bytes:
  assumes "\<not> deferredReadEOF s" and "timeout \<noteq> 0"
    and "RequestCancellation \<notin> set bef" and "RequestCancellation \<notin> set aft"
    and "(rd = Socket_read s False b timeout \<and>
          st0 = ReadCallback_buf (asyncSocket s) False b timeout) \<or>
         (rd = Socket_read_queue s False q m n timeout \<and>
          st0 = ReadCallback_queue (asyncSocket s) False q m n timeout)"
    and "st = run read_deliver bef (setReadCB True st0)"
    and "read_delivered (TimeoutExpired errno) st"
  shows "(length_cb (cb st) = 0 \<longrightarrow>
           \<not> readCallback (transport (read_deliver (TimeoutExpired errno) st)) \<and>
           error_cb (cb (read_deliver (TimeoutExpired errno) st)) = Some (timed_out errno) \<and>
           posts (cb (read_deliver (TimeoutExpired errno) st)) = Suc (posts (cb st)) \<and>
           fst (rd (bef @ Transport (TimeoutExpired errno) # aft)) = Throws (timed_out errno)) \<and>
         (length_cb (cb st) \<noteq> 0 \<longrightarrow>
           error_cb (cb (read_deliver (TimeoutExpired errno) st)) = None \<and>
           posts (cb (read_deliver (TimeoutExpired errno) st)) = posts (cb st) \<and>
           fst (rd (bef @ Transport (TimeoutExpired errno) # aft)) = Returns (length_cb (cb st)))"
proof -
  from assms(7) have fires: "timerScheduled (transport st)" by simp
  from assms(5) have tok: "\<not> token st0" by auto
  from assms(5) have inv: "read_inv (setReadCB True st0)" by (auto simp: read_inv_issued)
  from assms(1,5) have rd: "rd evs = read_await s st0 evs" for evs
    by (auto simp: Socket_read_def Socket_read_queue_def)
  have "read_inv st" unfolding assms(6) by (rule read_inv_run [OF inv])
  with fires have e: "error_cb (cb st) = None" by (simp add: read_inv_def)
  show ?thesis
    using read_await_timer [OF tok assms(3,4) inv assms(6) fires, of s errno]
    by (simp add: rd timer_fires [OF fires] e)
qed

theorem read_timeout_or_bytes_witness:
  "read_delivered (TimeoutExpired 110)
     (run read_deliver [] (setReadCB True (ReadCallback_buf (asyncSocket sock0) False buf10 5))) \<and>
   fst (Socket_read sock0 False buf10 5 [Transport (TimeoutExpired 110)]) =
     Throws (timed_out 110) \<and>
   read_delivered (TimeoutExpired 110)
     (run read_deliver [Transport (ReadDataAvailable 3)]
        (setReadCB True (ReadCallback_buf (asyncSocket sock0) False buf10 5))) \<and>
   fst (Socket_read sock0 False buf10 5
     [Transport (ReadDataAvailable 3), Transport (TimeoutExpired 110)]) = Returns 3"
proof -
  let ?st0 = "ReadCallback_buf (asyncSocket sock0) False buf10 5"
  let ?a = "run read_deliver [] (setReadCB True ?st0)"
  let ?b = "run read_deliver [Transport (ReadDataAvailable 3)] (setReadCB True ?st0)"
  have d: "\<not> deferredReadEOF sock0" and t: "(5::int) \<noteq> 0"
    and q0: "RequestCancellation \<notin> set ([] :: read_event event list)"
    and q1: "RequestCancellation \<notin> set [Transport (ReadDataAvailable 3)]"
    by simp_all
  have f: "(Socket_read sock0 False buf10 5 = Socket_read sock0 False buf10 5 \<and> ?st0 = ?st0) \<or>
      (Socket_read sock0 False buf10 5 =
         Socket_read_queue sock0 False \<lparr>chainLength = 0\<rparr> 0 0 5 \<and>
       ?st0 = ReadCallback_queue (asyncSocket sock0) False \<lparr>chainLength = 0\<rparr> 0 0 5)"
    by simp
  have da: "read_delivered (TimeoutExpired 110) ?a"
    by (simp add: prim_defs read_ctor_defs)
  have db: "read_delivered (TimeoutExpired 110) ?b"
    by (simp add: prim_defs read_ctor_defs read_deliver_simps readDataAvailable_def)
  have la: "length_cb (cb ?a) = 0"
    by (simp add: prim_defs read_ctor_defs)
  have lb: "length_cb (cb ?b) = 3"
    by (simp add: prim_defs read_ctor_defs read_deliver_simps readDataAvailable_def)
  from read_timeout_or_bytes [OF d t q0 q0 f refl da] la read_timeout_or_bytes [OF d t q1 q0 f refl db] lb da db
  show ?thesis by simp
qed

text \<open>
  Claim C5. A write of either form that the transport fails after \<open>k\<close> bytes, from
  inside the write call or later, with nobody requesting cancellation, throws the
  transport's error, and the caller's \<^verbatim>\<open>WriteInfo\<close>, when supplied, has
  \<^verbatim>\<open>bytesWritten\<close> equal to \<open>k\<close>. And whenever a write throws, cancellation included,
  the \<^verbatim>\<open>WriteInfo\<close> handed back with the error holds the callback's \<^verbatim>\<open>bytesWritten\<close>.
\<close>

theorem write_failure_populates_writeInfo:
  "(RequestCancellation \<notin> set evs \<longrightarrow>
      (let (r, s', wi', c) = Socket_write s False b t writeInfo []
             (Transport (WriteErr k ex) # evs) rst
       in r = Throws (SocketError ex) \<and>
          wi' = map_option (\<lambda>w. w\<lparr>wi_bytesWritten := k\<rparr>) writeInfo) \<and>
      (let (r, s', wi', c) = Socket_write s False b t writeInfo (WriteErr k ex # inl) evs rst
       in r = Throws (SocketError ex) \<and>
          wi' = map_option (\<lambda>w. w\<lparr>wi_bytesWritten := k\<rparr>) writeInfo) \<and>
      (let (r, s', wi', c) = Socket_write_queue s False (Some iovec) t writeInfo []
             (Transport (WriteErr k ex) # evs) rst
       in r = Throws (SocketError ex) \<and>
          wi' = map_option (\<lambda>w. w\<lparr>wi_bytesWritten := k\<rparr>) writeInfo) \<and>
      (let (r, s', wi', c) = Socket_write_queue s False (Some iovec) t writeInfo
             (WriteErr k ex # inl) evs rst
       in r = Throws (SocketError ex) \<and>
          wi' = map_option (\<lambda>w. w\<lparr>wi_bytesWritten := k\<rparr>) writeInfo)) \<and>
   (let (r, s', wi', c) = Socket_write s tok b t writeInfo inl' evs' rst
    in (\<exists>e. r = Throws e) \<longrightarrow>
       wi' = map_option (\<lambda>w. w\<lparr>wi_bytesWritten := bytesWritten c\<rparr>) writeInfo) \<and>
   (let (r, s', wi', c) = Socket_write_queue s tok front t writeInfo inl' evs' rst
    in (\<exists>e. r = Throws e) \<longrightarrow>
       wi' = map_option (\<lambda>w. w\<lparr>wi_bytesWritten := bytesWritten c\<rparr>) writeInfo)"
proof (intro conjI impI)
  assume q: "RequestCancellation \<notin> set evs"
  show "let (r, s', wi', c) = Socket_write s False b t writeInfo []
             (Transport (WriteErr k ex) # evs) rst
       in r = Throws (SocketError ex) \<and>
          wi' = map_option (\<lambda>w. w\<lparr>wi_bytesWritten := k\<rparr>) writeInfo"
    by (simp add: Socket_write_def Let_def write_await_failed [OF _ _ q])
  show "let (r, s', wi', c) = Socket_write s False b t writeInfo (WriteErr k ex # inl) evs rst
       in r = Throws (SocketError ex) \<and>
          wi' = map_option (\<lambda>w. w\<lparr>wi_bytesWritten := k\<rparr>) writeInfo"
    by (simp add: Socket_write_def Let_def write_await_failed_inline [OF _ _ q])
  show "let (r, s', wi', c) = Socket_write_queue s False (Some iovec) t writeInfo []
             (Transport (WriteErr k ex) # evs) rst
       in r = Throws (SocketError ex) \<and>
          wi' = map_option (\<lambda>w. w\<lparr>wi_bytesWritten := k\<rparr>) writeInfo"
    by (simp add: Socket_write_queue_def Let_def write_await_failed [OF _ _ q])
  show "let (r, s', wi', c) = Socket_write_queue s False (Some iovec) t writeInfo
             (WriteErr k ex # inl) evs rst
       in r = Throws (SocketError ex) \<and>
          wi' = map_option (\<lambda>w. w\<lparr>wi_bytesWritten := k\<rparr>) writeInfo"
    by (simp add: Socket_write_queue_def Let_def write_await_failed_inline [OF _ _ q])
next
  show "let (r, s', wi', c) = Socket_write s tok b t writeInfo inl' evs' rst
    in (\<exists>e. r = Throws e) \<longrightarrow>
       wi' = map_option (\<lambda>w. w\<lparr>wi_bytesWritten := bytesWritten c\<rparr>) writeInfo"
    using write_await_throws
    by (auto simp: Socket_write_def Let_def case_prod_beta)
  show "let (r, s', wi', c) = Socket_write_queue s tok front t writeInfo inl' evs' rst
    in (\<exists>e. r = Throws e) \<longrightarrow>
       wi' = map_option (\<lambda>w. w\<lparr>wi_bytesWritten := bytesWritten c\<rparr>) writeInfo"
    using write_await_throws
    by (cases front) (auto simp: Socket_write_queue_def Let_def case_prod_beta)
qed

theorem write_failure_populates_writeInfo_witness:
  "RequestCancellation \<notin> set ([] :: write_event event list) \<and>
   fst (Socket_write sock0 False buf100 0 (Some \<lparr>wi_bytesWritten = 0\<rparr>) []
     [Transport (WriteErr 30 reset_by_peer)] None) = Throws (SocketError reset_by_peer) \<and>
   fst (snd (snd (Socket_write sock0 False buf100 0 (Some \<lparr>wi_bytesWritten = 0\<rparr>) []
     [Transport (WriteErr 30 reset_by_peer)] None))) = Some \<lparr>wi_bytesWritten = 30\<rparr>"
  using write_failure_populates_writeInfo [where evs = "[]" and s = sock0 and b = buf100 and t = 0
      and writeInfo = "Some \<lparr>wi_bytesWritten = 0\<rparr>" and k = 30 and ex = reset_by_peer
      and rst = None and inl = "[]" and iovec = "[]" and tok = False and inl' = "[]"
      and evs' = "[]" and front = None]
  by (simp add: case_prod_beta)

text \<open>
  Claim C6, as stated, fails: a data event that does not fill a fixed buffer leaves
  the callback registered, the end-of-stream that follows reaches the same callback,
  and the baton is posted twice. On a fresh socket, 4 bytes and then end-of-stream
  into a 10-byte buffer:
\<close>

theorem data_then_eof_posts_twice:
  "map_option posts (snd (snd (Socket_read sock0 False buf10 0
      [Transport (ReadDataAvailable 4), Transport ReadEOF]))) = Some 2 \<and>
   readCallback (transport (readDataAvailable 4
      (setReadCB True (ReadCallback_buf (asyncSocket sock0) False buf10 0)))) \<and>
   fst (Socket_read sock0 False buf10 0
      [Transport (ReadDataAvailable 4), Transport ReadEOF]) = Returns 4"
  by (simp add: Socket_read_def read_await_def read_finish_def wait_def Let_def prim_defs
        read_cb_defs read_ctor_defs newSocket_def)

text \<open>
  Claim C6, amended. \<open>readEOF\<close> and \<open>readErr\<close> deregister the read callback as their
  first call, cancel the timer and post once; the timer callback deregisters as its
  first call and posts once if no byte was counted, else not at all; after any of
  the three no transport or timer event changes the callback. \<open>readDataAvailable\<close>
  posts once per event and leaves the callback registered unless a fixed buffer is
  exactly full, so later events can post again on the same callback. Connect and write
  callbacks do not deregister themselves; transport events post them at most once
  because the transport notifies once per registration.
\<close>

theorem posts_and_deregistration:
  "(readCallback (transport st) \<longrightarrow>
      (\<forall>e \<in> {ReadEOF, ReadErr ex}.
         let st' = read_deliver e st
         in calls (transport st') = calls (transport st) @ [SetReadCB False, CancelTimeout] \<and>
            \<not> readCallback (transport st') \<and> \<not> timerScheduled (transport st') \<and>
            posts (cb st') = Suc (posts (cb st)) \<and>
            run read_deliver (map Transport es) st' = st') \<and>
      posts (cb (read_deliver (ReadDataAvailable len) st)) = Suc (posts (cb st)) \<and>
      readCallback (transport (read_deliver (ReadDataAvailable len) st)) =
        (readBuf (cb st) \<noteq> None \<or> length_cb (cb st) + len \<noteq> r_size (buf (cb st)))) \<and>
   (timerScheduled (transport st) \<longrightarrow>
      (let st' = read_deliver (TimeoutExpired errno) st
       in calls (transport st') = calls (transport st) @ [SetReadCB False] \<and>
          \<not> readCallback (transport st') \<and> \<not> timerScheduled (transport st') \<and>
          posts (cb st') = (if length_cb (cb st) = 0 then Suc (posts (cb st)) else posts (cb st)) \<and>
          run read_deliver (map Transport es) st' = st')) \<and>
   posts (cb (run connect_deliver (map Transport ces) cst)) =
     posts (cb cst) + (if connectCallback (transport cst) \<and> ces \<noteq> [] then 1 else 0) \<and>
   posts (cb (run write_deliver (map Transport wes) wst)) =
     posts (cb wst) + (if writeCallback (transport wst) \<and> wes \<noteq> [] then 1 else 0)"
proof -
  have A: "calls (transport st') = calls (transport st) @ [SetReadCB False, CancelTimeout] \<and>
         \<not> readCallback (transport st') \<and> \<not> timerScheduled (transport st') \<and>
         posts (cb st') = Suc (posts (cb st)) \<and>
         run read_deliver (map Transport es) st' = st'"
    if r: "readCallback (transport st)"
      and s: "st' = read_deliver ReadEOF st \<or> st' = read_deliver (ReadErr ex) st" for st'
  proof -
    from r s
    have 1: "calls (transport st') = calls (transport st) @ [SetReadCB False, CancelTimeout]"
      and 2: "\<not> readCallback (transport st')" and 3: "\<not> timerScheduled (transport st')"
      and 4: "posts (cb st') = Suc (posts (cb st))"
      by (auto simp: read_deliver_simps readEOF_def readErr_def prim_defs Let_def)
    from 1 2 3 4 run_read_closed' [OF 2 3] show ?thesis by simp
  qed
  have B: "posts (cb (read_deliver (ReadDataAvailable len) st)) = Suc (posts (cb st)) \<and>
      readCallback (transport (read_deliver (ReadDataAvailable len) st)) =
        (readBuf (cb st) \<noteq> None \<or> length_cb (cb st) + len \<noteq> r_size (buf (cb st)))"
    if "readCallback (transport st)"
    using that
    by (auto simp: read_deliver_simps readDataAvailable_def prim_defs Let_def split: option.splits)
  have C: "let st' = read_deliver (TimeoutExpired errno) st
       in calls (transport st') = calls (transport st) @ [SetReadCB False] \<and>
          \<not> readCallback (transport st') \<and> \<not> timerScheduled (transport st') \<and>
          posts (cb st') = (if length_cb (cb st) = 0 then Suc (posts (cb st)) else posts (cb st)) \<and>
          run read_deliver (map Transport es) st' = st'"
    if t: "timerScheduled (transport st)"
  proof -
    let ?st' = "read_deliver (TimeoutExpired errno) st"
    have 2: "\<not> readCallback (transport ?st')" and 3: "\<not> timerScheduled (transport ?st')"
      by (simp_all add: timer_fires [OF t])
    from run_read_closed' [OF 2 3, of es] show ?thesis
      by (simp add: Let_def) (simp add: timer_fires [OF t])
  qed
  have A': "\<forall>e \<in> {ReadEOF, ReadErr ex}.
         let st' = read_deliver e st
         in calls (transport st') = calls (transport st) @ [SetReadCB False, CancelTimeout] \<and>
            \<not> readCallback (transport st') \<and> \<not> timerScheduled (transport st') \<and>
            posts (cb st') = Suc (posts (cb st)) \<and>
            run read_deliver (map Transport es) st' = st'"
    if r: "readCallback (transport st)"
    using A [OF r, of "read_deliver ReadEOF st"] A [OF r, of "read_deliver (ReadErr ex) st"]
    unfolding Let_def by blast
  from A' B C posts_run_connect [of ces cst] posts_run_write [of wes wst]
  show ?thesis by blast
qed

theorem posts_and_deregistration_witness:
  "readCallback (transport (setReadCB True (ReadCallback_buf (asyncSocket sock0) False buf10 5))) \<and>
   posts (cb (read_deliver ReadEOF
     (setReadCB True (ReadCallback_buf (asyncSocket sock0) False buf10 5)))) = 1 \<and>
   \<not> readCallback (transport (read_deliver ReadEOF
     (setReadCB True (ReadCallback_buf (asyncSocket sock0) False buf10 5)))) \<and>
   timerScheduled (transport (setReadCB True (ReadCallback_buf (asyncSocket sock0) False buf10 5))) \<and>
   posts (cb (read_deliver (TimeoutExpired 110)
     (setReadCB True (ReadCallback_buf (asyncSocket sock0) False buf10 5)))) = 1"
proof -
  let ?st = "setReadCB True (ReadCallback_buf (asyncSocket sock0) False buf10 5)"
  have r: "readCallback (transport ?st)" and t: "timerScheduled (transport ?st)"
    and p: "posts (cb ?st) = 0" and l: "length_cb (cb ?st) = 0"
    by (simp_all add: prim_defs read_ctor_defs)
  from posts_and_deregistration [where st = ?st and ex = reset_by_peer and es = "[]" and len = 4 and errno = 110
      and ces = "[]" and wes = "[]"
      and cst = "\<lparr>cb = \<lparr>error_cb = None, posts = 0, cancels = 0\<rparr>, transport = newSocket 0,
                   token = False\<rparr>"
      and wst = "WriteCallback_new (newSocket 0) False"] r t p l
  show ?thesis unfolding Let_def by simp
qed

text \<open>
  Claim C7. A read of either kind to which the transport delivers end-of-stream and
  no data, with no cancellation, returns 0 and leaves \<^verbatim>\<open>deferredReadEOF_\<close> unset, and
  the next read on the socket goes to the transport: it arms the timer if its timeout
  is positive and registers its callback.
\<close>

theorem read_eof_without_data:
  assumes "\<not> deferredReadEOF s"
  shows "(let (r, s1, c) = Socket_read s False b t [Transport ReadEOF]
          in r = Returns 0 \<and> \<not> deferredReadEOF s1 \<and>
             (\<exists>rest. calls (asyncSocket (fst (snd (Socket_read s1 tok' b' t' evs)))) =
                calls (asyncSocket s1) @ (if 0 < t' then [ScheduleTimeout t'] else []) @
                SetReadCB True # rest) \<and>
             (\<exists>rest. calls (asyncSocket (fst (snd (Socket_read_queue s1 tok' q' m' n' t' evs)))) =
                calls (asyncSocket s1) @ (if 0 < t' then [ScheduleTimeout t'] else []) @
                SetReadCB True # rest)) \<and>
         (let (r, s1, c) = Socket_read_queue s False q m n t [Transport ReadEOF]
          in r = Returns 0 \<and> \<not> deferredReadEOF s1 \<and>
             (\<exists>rest. calls (asyncSocket (fst (snd (Socket_read s1 tok' b' t' evs)))) =
                calls (asyncSocket s1) @ (if 0 < t' then [ScheduleTimeout t'] else []) @
                SetReadCB True # rest) \<and>
             (\<exists>rest. calls (asyncSocket (fst (snd (Socket_read_queue s1 tok' q' m' n' t' evs)))) =
                calls (asyncSocket s1) @ (if 0 < t' then [ScheduleTimeout t'] else []) @
                SetReadCB True # rest))"
proof -
  obtain s1 c where 1: "Socket_read s False b t [Transport ReadEOF] = (Returns 0, s1, c)"
    and d1: "\<not> deferredReadEOF s1"
    using eof_only(1) [OF assms] by blast
  obtain s2 c2 where 2: "Socket_read_queue s False q m n t [Transport ReadEOF] = (Returns 0, s2, c2)"
    and d2: "\<not> deferredReadEOF s2"
    using eof_only(2) [OF assms] by blast
  show ?thesis
    using calls_Socket_read [OF d1] calls_Socket_read [OF d2]
    by (simp add: 1 2 d1 d2)
qed

theorem read_eof_without_data_witness:
  "\<not> deferredReadEOF sock0 \<and>
   fst (Socket_read sock0 False buf10 0 [Transport ReadEOF]) = Returns 0 \<and>
   \<not> deferredReadEOF (fst (snd (Socket_read sock0 False buf10 0 [Transport ReadEOF])))"
  using read_eof_without_data [where s = sock0 and b = buf10 and t = 0 and tok' = False and b' = buf10 and t' = 0
      and evs = "[]" and q = "\<lparr>chainLength = 0\<rparr>" and m = 0 and n = 0
      and q' = "\<lparr>chainLength = 0\<rparr>" and m' = 0 and n' = 0]
  by (simp add: case_prod_beta)

text \<open>
  Claim C8. In fixed-buffer mode the buffer offered for a data event starts at the
  running length and is what remains of the caller's buffer; the event advances the
  running length by the bytes delivered, so the next offer starts where these bytes
  end; the callback deregisters and cancels its timer exactly when the running length
  has reached the buffer's size, and otherwise leaves the transport alone. In growing
  mode the bytes are committed to the queue and the transport is left alone. In both
  modes the event posts.
\<close>

theorem readDataAvailable_fixed_and_growing:
  "(readBuf (cb st) = None \<longrightarrow>
      getReadBuffer preallocate (cb st) =
        (r_begin (buf (cb st)) + length_cb (cb st), r_size (buf (cb st)) - length_cb (cb st)) \<and>
      length_cb (cb (readDataAvailable len st)) = length_cb (cb st) + len \<and>
      fst (getReadBuffer preallocate (cb (readDataAvailable len st))) =
        fst (getReadBuffer preallocate (cb st)) + len \<and>
      transport (readDataAvailable len st) =
        (if length_cb (cb st) + len = r_size (buf (cb st))
         then (transport st)\<lparr>readCallback := False, timerScheduled := False,
                calls := calls (transport st) @ [SetReadCB False, CancelTimeout]\<rparr>
         else transport st) \<and>
      posts (cb (readDataAvailable len st)) = Suc (posts (cb st))) \<and>
   (readBuf (cb st) = Some q \<longrightarrow>
      getReadBuffer preallocate (cb st) =
        preallocate q (minReadSize (cb st)) (newAllocationSize (cb st)) \<and>
      length_cb (cb (readDataAvailable len st)) = length_cb (cb st) + len \<and>
      readBuf (cb (readDataAvailable len st)) = Some (postallocate q len) \<and>
      transport (readDataAvailable len st) = transport st \<and>
      posts (cb (readDataAvailable len st)) = Suc (posts (cb st)))"
  by (simp add: getReadBuffer_def readDataAvailable_def prim_defs Let_def)

theorem readDataAvailable_fixed_and_growing_witness:
  "readBuf (cb (setReadCB True (ReadCallback_buf (asyncSocket sock0) False buf10 5))) = None \<and>
   length_cb (cb (readDataAvailable 4
     (setReadCB True (ReadCallback_buf (asyncSocket sock0) False buf10 5)))) = 4 \<and>
   readCallback (transport (readDataAvailable 4
     (setReadCB True (ReadCallback_buf (asyncSocket sock0) False buf10 5)))) \<and>
   \<not> readCallback (transport (readDataAvailable 10
     (setReadCB True (ReadCallback_buf (asyncSocket sock0) False buf10 5)))) \<and>
   readBuf (cb (setReadCB True (ReadCallback_queue (asyncSocket sock0) False
     \<lparr>chainLength = 7\<rparr> 1 4096 5))) = Some \<lparr>chainLength = 7\<rparr> \<and>
   readCallback (transport (readDataAvailable 4 (setReadCB True
     (ReadCallback_queue (asyncSocket sock0) False \<lparr>chainLength = 7\<rparr> 1 4096 5))))"
proof -
  let ?f = "setReadCB True (ReadCallback_buf (asyncSocket sock0) False buf10 5)"
  let ?g = "setReadCB True (ReadCallback_queue (asyncSocket sock0) False \<lparr>chainLength = 7\<rparr> 1 4096 5)"
  have f: "readBuf (cb ?f) = None" "length_cb (cb ?f) = 0" "buf (cb ?f) = buf10"
    "readCallback (transport ?f)"
    by (simp_all add: prim_defs read_ctor_defs)
  have g: "readBuf (cb ?g) = Some \<lparr>chainLength = 7\<rparr>" "readCallback (transport ?g)"
    by (simp_all add: prim_defs read_ctor_defs)
  from readDataAvailable_fixed_and_growing [where st = ?f and len = 4 and preallocate = "\<lambda>q m n. (0, n)"]
    readDataAvailable_fixed_and_growing [where st = ?f and len = 10 and preallocate = "\<lambda>q m n. (0, n)"]
    readDataAvailable_fixed_and_growing [where st = ?g and len = 4 and q = "\<lparr>chainLength = 7\<rparr>" and preallocate = "\<lambda>q m n. (0, n)"]
    f g
  show ?thesis by simp
qed

text \<open>
  Claim C9. In a fixed-buffer read in which the transport reports no more bytes per
  data event than the buffer it was offered, the count the read returns is at most the
  size of the caller's buffer; so is the running length after every prefix of the
  events, and the buffer offered then is the unfilled remainder of the caller's
  buffer.
\<close>

theorem read_never_exceeds_buffer:
  assumes "within_offer preallocate evs
             (setReadCB True (ReadCallback_buf (asyncSocket s) tok b timeout))"
  shows "(fst (Socket_read s tok b timeout evs) = Returns n \<longrightarrow> n \<le> r_size b) \<and>
         length_cb (cb (run read_deliver (take k evs)
           (setReadCB True (ReadCallback_buf (asyncSocket s) tok b timeout)))) \<le> r_size b \<and>
         (let c = cb (run read_deliver (take k evs)
                   (setReadCB True (ReadCallback_buf (asyncSocket s) tok b timeout)))
          in getReadBuffer preallocate c = (r_begin b + length_cb c, r_size b - length_cb c))"
proof -
  let ?st1 = "setReadCB True (ReadCallback_buf (asyncSocket s) tok b timeout)"
  have "within_offer preallocate (take k evs @ drop k evs) ?st1" using assms by simp
  then have "within_offer preallocate (take k evs) ?st1"
    unfolding within_offer_append by blast
  from fits_run [OF fits_issued this]
  have 2: "fits b (run read_deliver (take k evs) ?st1)" .
  obtain w st2 where w: "wait ReadCallback_cancel read_deliver evs ?st1 = (w, st2)"
    by (cases "wait ReadCallback_cancel read_deliver evs ?st1")
  have f: "fits b st2" using fits_wait [OF fits_issued assms] by (simp add: w)
  have 1: "fst (Socket_read s tok b timeout evs) = Returns n \<longrightarrow> n \<le> r_size b"
  proof (cases "deferredReadEOF s")
    case True
    then show ?thesis by (auto simp: read_deferred)
  next
    case False
    then show ?thesis
      using f
      by (simp add: Socket_read_def read_await_def w)
         (auto simp: read_finish_def fits_def prim_defs Let_def split: task.splits option.splits)
  qed
  from 1 2 show ?thesis
    by (simp add: fits_def getReadBuffer_def Let_def)
qed

theorem read_never_exceeds_buffer_witness:
  "within_offer (\<lambda>q m n. (0, n))
     [Transport (ReadDataAvailable 4), Transport (ReadDataAvailable 6)]
     (setReadCB True (ReadCallback_buf (asyncSocket sock0) False buf10 0)) \<and>
   fst (Socket_read sock0 False buf10 0
     [Transport (ReadDataAvailable 4), Transport (ReadDataAvailable 6)]) = Returns 10 \<and>
   (10 :: size_t) \<le> r_size buf10"
proof -
  have w: "within_offer (\<lambda>q m n. (0, n))
     [Transport (ReadDataAvailable 4), Transport (ReadDataAvailable 6)]
     (setReadCB True (ReadCallback_buf (asyncSocket sock0) False buf10 0))"
    by (simp add: eval_defs Let_def)
  have r: "fst (Socket_read sock0 False buf10 0
     [Transport (ReadDataAvailable 4), Transport (ReadDataAvailable 6)]) = Returns 10"
    by (simp add: eval_defs Let_def)
  from read_never_exceeds_buffer [OF w, where n = 10 and k = 0] w r show ?thesis by simp
qed

text \<open>
  Claim C10. A read of either kind that ends with an error, cancellation included,
  leaves \<^verbatim>\<open>deferredReadEOF_\<close> as it was when the call was made.
\<close>

theorem read_error_keeps_deferredReadEOF:
  "(fst (Socket_read s tok b t evs) = Throws e \<longrightarrow>
      deferredReadEOF (fst (snd (Socket_read s tok b t evs))) = deferredReadEOF s) \<and>
   (fst (Socket_read_queue s tok q m n t evs) = Throws e \<longrightarrow>
      deferredReadEOF (fst (snd (Socket_read_queue s tok q m n t evs))) = deferredReadEOF s)"
  using read_await_throws [of s "ReadCallback_buf (asyncSocket s) tok b t" evs e]
    read_await_throws [of s "ReadCallback_queue (asyncSocket s) tok q m n t" evs e]
  by (simp add: Socket_read_def Socket_read_queue_def)

theorem read_error_keeps_deferredReadEOF_witness:
  "fst (Socket_read sock0 False buf10 0 [Transport (ReadErr reset_by_peer)]) =
     Throws (SocketError reset_by_peer) \<and>
   deferredReadEOF (fst (snd (Socket_read sock0 False buf10 0
     [Transport (ReadErr reset_by_peer)]))) = deferredReadEOF sock0"
proof -
  have r: "fst (Socket_read sock0 False buf10 0 [Transport (ReadErr reset_by_peer)]) =
     Throws (SocketError reset_by_peer)"
    by (simp add: eval_defs Let_def)
  from read_error_keeps_deferredReadEOF [where s = sock0 and tok = False and b = buf10 and t = 0
      and evs = "[Transport (ReadErr reset_by_peer)]" and e = "SocketError reset_by_peer"] r
  show ?thesis by simp
qed

end
